theory Spec2Isabelle
  imports Main "HOL-Library.Word"
begin

section \<open>Layer-3 rule compilation (nfrule\_l3.go)\<close>

text \<open>
  The Go code reports failure through its last return value. One datatype collects the
  errors the modelled functions build with \<^verbatim>\<open>fmt.Errorf\<close>, and one constructor
  stands for an error handed back by a collaborator (an expression builder, the netlink
  connection, a chain's rule store); its flag is what \<^verbatim>\<open>errors.Is(err, unix.EBUSY)\<close>
  answers for it.
\<close>

datatype error =
    ErrUnknownTableFamily "8 word"
  | ErrBothNil
  | ErrEmptyAddr
  | ErrNoChainType
  | ErrChainExists string string
  | ErrChainNotExists string
  | ErrExternal bool string

text \<open>
  \<^verbatim>\<open>nftables.TableFamily\<close> is a byte; the two families the compiler knows are the
  kernel's \<^verbatim>\<open>NFPROTO_IPV4\<close> and \<^verbatim>\<open>NFPROTO_IPV6\<close>.
\<close>

definition TableFamilyIPv4 :: "8 word" where
  "TableFamilyIPv4 = 2"

definition TableFamilyIPv6 :: "8 word" where
  "TableFamilyIPv6 = 10"

text \<open>
  \<^verbatim>\<open>net.IP\<close> is a byte slice. \<^verbatim>\<open>To4\<close> and \<^verbatim>\<open>To16\<close> are the Go standard
  library's conversions: a slice of the wrong shape converts to \<^verbatim>\<open>nil\<close>, the empty
  list here.
\<close>

type_synonym IP = "8 word list"

definition v4InV6Prefix :: IP where
  "v4InV6Prefix = [0, 0, 0, 0, 0, 0, 0, 0, 0, 0, 0xff, 0xff]"

definition To4 :: "IP \<Rightarrow> IP" where
  "To4 ip =
     (if length ip = 4 then ip
      else if length ip = 16 \<and> (\<forall>b \<in> set (take 10 ip). b = 0)
              \<and> ip ! 10 = 0xff \<and> ip ! 11 = 0xff
        then drop 12 ip
      else [])"

definition To16 :: "IP \<Rightarrow> IP" where
  "To16 ip =
     (if length ip = 4 then v4InV6Prefix @ ip
      else if length ip = 16 then ip
      else [])"

text \<open>
  The rule description. A pointer the code tests against \<^verbatim>\<open>nil\<close> is an option; a
  pointer it dereferences without a test (the rule, its \<^verbatim>\<open>L3\<close> part, the set, the
  entries of an address list) is the value it points to. \<^verbatim>\<open>IPAddr\<close> embeds a
  \<^verbatim>\<open>*net.IPAddr\<close>, of which the compiler reads the \<^verbatim>\<open>IP\<close> field.
\<close>

record IPAddr =
  IP :: IP
  CIDR :: bool
  Mask :: "8 word option"

record IPAddrSpec =
  AddrList :: "IPAddr list"
  AddrRange :: "IPAddr option \<times> IPAddr option"

record L3Rule =
  Src :: "IPAddrSpec option"
  Dst :: "IPAddrSpec option"
  Version :: "32 word option"
  Protocol :: "32 word option"

record Rule =
  L3 :: L3Rule
  Exclude :: bool

text \<open>
  The library's side: a set's key type is one of the library's \<^verbatim>\<open>SetDatatype\<close>
  values, a set element carries its key, a compiled rule carries its expressions. The
  expressions themselves are the library's; the model keeps them abstract (\<open>'e\<close>).
\<close>

record SetDatatype =
  sdName :: string
  sdBytes :: "32 word"
  nftMagic :: "32 word"

definition TypeIPAddr :: SetDatatype where
  "TypeIPAddr = \<lparr>sdName = ''ipv4_addr'', sdBytes = 4, nftMagic = 7\<rparr>"

definition TypeIP6Addr :: SetDatatype where
  "TypeIP6Addr = \<lparr>sdName = ''ipv6_addr'', sdBytes = 16, nftMagic = 8\<rparr>"

record NFSet =
  setID :: "32 word"
  setName :: string
  KeyType :: SetDatatype

record SetElement =
  Key :: "8 word list"

record 'e nftables_Rule =
  Exprs :: "'e list"

text \<open>
  The four expression builders \<^verbatim>\<open>getExprForSingleIP\<close>, \<^verbatim>\<open>getExprForListIP\<close>,
  \<^verbatim>\<open>getExprForRangeIP\<close> and \<^verbatim>\<open>getExprForIPVersion\<close> are called by this file and
  defined in another one. The model takes them as parameters, with the argument order of
  the calls, so that every statement below holds whatever they compute.
\<close>

record 'e builders =
  getExprForSingleIP :: "8 word \<Rightarrow> 32 word \<Rightarrow> IPAddr \<Rightarrow> bool \<Rightarrow> error + 'e list"
  getExprForListIP :: "8 word \<Rightarrow> NFSet \<Rightarrow> 32 word \<Rightarrow> bool \<Rightarrow> error + 'e list"
  getExprForRangeIP ::
    "8 word \<Rightarrow> 32 word \<Rightarrow> IPAddr option \<times> IPAddr option \<Rightarrow> bool \<Rightarrow> error + 'e list"
  getExprForIPVersion :: "32 word \<Rightarrow> bool \<Rightarrow> error + 'e list"

type_synonym 'e compiled = "error + 'e nftables_Rule \<times> SetElement list"

text \<open>
  The two loops of \<^verbatim>\<open>processAddrList\<close> write \<^verbatim>\<open>setElements[i].Key\<close> for
  \<open>i = 0, ..., len(list) - 1\<close>; \<open>fillKeys\<close> is that loop, with the conversion as
  its parameter.
\<close>

definition fillKeys :: "(IP \<Rightarrow> IP) \<Rightarrow> IPAddr list \<Rightarrow> SetElement list \<Rightarrow> SetElement list" where
  "fillKeys conv list setElements =
     fold (\<lambda>i se. se[i := (se ! i)\<lparr>Key := conv (IP (list ! i))\<rparr>]) [0..<length list] setElements"

definition processAddrList ::
  "'e builders \<Rightarrow> 8 word \<Rightarrow> 32 word \<Rightarrow> IPAddr list \<Rightarrow> bool \<Rightarrow> NFSet \<Rightarrow> 'e compiled" where
  "processAddrList h l3proto offset list excl set0 =
     (if length list = 1 then
        (case getExprForSingleIP h l3proto offset (list ! 0) excl of
           Inl err \<Rightarrow> Inl err
         | Inr expr \<Rightarrow> Inr (\<lparr>Exprs = expr\<rparr>, []))
      else
        (let setElements = replicate (length list) \<lparr>Key = []\<rparr>;
             setElements = (if l3proto = TableFamilyIPv4
                            then fillKeys To4 list setElements else setElements);
             setElements = (if l3proto = TableFamilyIPv6
                            then fillKeys To16 list setElements else setElements)
         in if length setElements = 0 then Inl (ErrUnknownTableFamily l3proto)
            else (case getExprForListIP h l3proto set0 offset excl of
                    Inl err \<Rightarrow> Inl err
                  | Inr re \<Rightarrow> Inr (\<lparr>Exprs = re\<rparr>, setElements))))"

definition processAddrRange ::
  "'e builders \<Rightarrow> 8 word \<Rightarrow> 32 word \<Rightarrow> IPAddr option \<times> IPAddr option \<Rightarrow> bool \<Rightarrow> 'e compiled" where
  "processAddrRange h l3proto offset rng excl =
     (case getExprForRangeIP h l3proto offset rng excl of
        Inl err \<Rightarrow> Inl err
      | Inr re \<Rightarrow> Inr (\<lparr>Exprs = re\<rparr>, []))"

definition processVersion :: "'e builders \<Rightarrow> 32 word \<Rightarrow> bool \<Rightarrow> 'e compiled" where
  "processVersion h version excl =
     (case getExprForIPVersion h version excl of
        Inl err \<Rightarrow> Inl err
      | Inr re \<Rightarrow> Inr (\<lparr>Exprs = re\<rparr>, []))"

text \<open>
  \<^verbatim>\<open>createL3\<close> keeps two locals, \<^verbatim>\<open>ruleAddr\<close> and \<^verbatim>\<open>addrOffset\<close>, and
  writes the key type of the set it was handed. \<open>l3_src_block\<close> and
  \<open>l3_dst_block\<close> are its two \<^verbatim>\<open>if\<close> statements (source first, destination
  second), each taking the locals and the set to their new values or to the error of
  its \<^verbatim>\<open>default\<close> branch; \<open>createL3_locals\<close> runs one after the other, and
  \<open>l3_addr_block\<close> is the rest of the function, from the test of \<^verbatim>\<open>ruleAddr\<close> on.
  The model returns the set with the result, since the caller sees the write.
\<close>

type_synonym l3_locals = "IPAddrSpec option \<times> 32 word \<times> NFSet"

definition l3_src_block :: "8 word \<Rightarrow> L3Rule \<Rightarrow> l3_locals \<Rightarrow> error + l3_locals" where
  "l3_src_block l3proto l3 loc =
     (case loc of (ruleAddr, addrOffset, set0) \<Rightarrow>
        (case Src l3 of
           None \<Rightarrow> Inr loc
         | Some src \<Rightarrow>
             if l3proto = TableFamilyIPv4
               then Inr (Some src, 12, set0\<lparr>KeyType := TypeIPAddr\<rparr>)
             else if l3proto = TableFamilyIPv6
               then Inr (Some src, 8, set0\<lparr>KeyType := TypeIP6Addr\<rparr>)
             else Inl (ErrUnknownTableFamily l3proto)))"

definition l3_dst_block :: "8 word \<Rightarrow> L3Rule \<Rightarrow> l3_locals \<Rightarrow> error + l3_locals" where
  "l3_dst_block l3proto l3 loc =
     (case loc of (ruleAddr, addrOffset, set0) \<Rightarrow>
        (case Dst l3 of
           None \<Rightarrow> Inr loc
         | Some dst \<Rightarrow>
             if l3proto = TableFamilyIPv4
               then Inr (Some dst, 16, set0\<lparr>KeyType := TypeIPAddr\<rparr>)
             else if l3proto = TableFamilyIPv6
               then Inr (Some dst, 24, set0\<lparr>KeyType := TypeIP6Addr\<rparr>)
             else Inl (ErrUnknownTableFamily l3proto)))"

definition createL3_locals :: "8 word \<Rightarrow> L3Rule \<Rightarrow> NFSet \<Rightarrow> error + l3_locals" where
  "createL3_locals l3proto l3 set0 =
     (case l3_src_block l3proto l3 (None, 0, set0) of
        Inl err \<Rightarrow> Inl err
      | Inr loc \<Rightarrow> l3_dst_block l3proto l3 loc)"

definition l3_addr_block ::
  "'e builders \<Rightarrow> 8 word \<Rightarrow> 32 word \<Rightarrow> IPAddrSpec option \<Rightarrow> bool \<Rightarrow> NFSet \<Rightarrow> 'e compiled" where
  "l3_addr_block h l3proto addrOffset ruleAddr excl set0 =
     (case ruleAddr of
        None \<Rightarrow> Inl ErrBothNil
      | Some ra \<Rightarrow>
          if length (AddrList ra) \<noteq> 0
            then processAddrList h l3proto addrOffset (AddrList ra) excl set0
          else if fst (AddrRange ra) \<noteq> None \<and> snd (AddrRange ra) \<noteq> None
            then processAddrRange h l3proto addrOffset (AddrRange ra) excl
          else Inl ErrEmptyAddr)"

definition createL3 :: "'e builders \<Rightarrow> 8 word \<Rightarrow> Rule \<Rightarrow> NFSet \<Rightarrow> NFSet \<times> 'e compiled" where
  "createL3 h l3proto rule set0 =
     (let l3 = L3 rule in
      case Version l3 of
        Some version \<Rightarrow> (set0, processVersion h version (Exclude rule))
      | None \<Rightarrow>
          (case l3_src_block l3proto l3 (None, 0, set0) of
             Inl err \<Rightarrow> (set0, Inl err)
           | Inr loc1 \<Rightarrow>
               (case l3_dst_block l3proto l3 loc1 of
                  Inl err \<Rightarrow> (snd (snd loc1), Inl err)
                | Inr (ruleAddr, addrOffset, set2) \<Rightarrow>
                    (set2, l3_addr_block h l3proto addrOffset ruleAddr (Exclude rule) set2))))"

section \<open>The chain store (chains of one table)\<close>

text \<open>
  \<^verbatim>\<open>ChainAttributes.Hook\<close> and \<^verbatim>\<open>ChainAttributes.Priority\<close> are pointers, and
  \<^verbatim>\<open>create\<close> stores them in the chain's \<^verbatim>\<open>Hooknum\<close> and \<^verbatim>\<open>Priority\<close>; the
  code compares them with \<^verbatim>\<open>!=\<close>, which in Go compares where two pointers point,
  not what they point to. A pointer is therefore an optional reference made of an
  address and the value stored there; an address is a package-level variable of the
  library (such as \<^verbatim>\<open>nftables.ChainHookPrerouting\<close>) or an allocation. The policy
  pointers are tested against \<^verbatim>\<open>nil\<close> and read through, never compared, so they
  are options of the value they point to. The store's table and the table of a listed
  chain are dereferenced without a test and are plain records.
\<close>

datatype addr = Global string | Heap nat

datatype 'a ref = Ref (addr_of: addr) (deref: 'a)

type_synonym 'a ptr = "'a ref option"

definition ptr_eq :: "'a ptr \<Rightarrow> 'a ptr \<Rightarrow> bool" where
  "ptr_eq p q = (map_option addr_of p = map_option addr_of q)"

definition ChainHookPrerouting :: "32 word ptr" where
  "ChainHookPrerouting = Some (Ref (Global ''ChainHookPrerouting'') 0)"

definition ChainPolicyAccept :: "32 word" where
  "ChainPolicyAccept = 1"

definition ChainPolicyDrop :: "32 word" where
  "ChainPolicyDrop = 0"

text \<open>\<^verbatim>\<open>time.Duration\<close> counts nanoseconds.\<close>

definition Second :: int where
  "Second = 1000000000"

definition ChainDeleteTimeout :: int where
  "ChainDeleteTimeout = Second * 60"

record Table =
  tblName :: string
  tblFamily :: "8 word"

record Chain =
  Name :: string
  Table :: Table
  Hooknum :: "32 word ptr"
  Priority :: "32 word ptr"
  Type :: string
  Policy :: "32 word option"

record ChainAttributes =
  attrType :: string
  attrHook :: "32 word ptr"
  attrPriority :: "32 word ptr"
  attrDevice :: string
  attrPolicy :: "32 word option"

definition Validate :: "ChainAttributes \<Rightarrow> error option" where
  "Validate cha = (if attrType cha = [] then Some ErrNoChainType else None)"

text \<open>
  Modelled from the spec: \<^verbatim>\<open>newRules\<close> (defined in another file of the repository)
  builds the rule store a chain owns. The model keeps of it that it is there and which table and
  chain it was built for.
\<close>

datatype RulesInterface = RulesOf Table "Chain option"

definition newRules :: "Table \<Rightarrow> Chain option \<Rightarrow> RulesInterface option" where
  "newRules t c = Some (RulesOf t c)"

record nfChain =
  baseChain :: bool
  chain :: "Chain option"
  RulesInterface :: "RulesInterface option"

text \<open>
  What the store does to the outside is kept as a trace: the calls on the connection
  (\<^verbatim>\<open>AddChain\<close>, \<^verbatim>\<open>DelChain\<close>, \<^verbatim>\<open>Flush\<close>, \<^verbatim>\<open>ListChains\<close>), the call of a
  chain's rule store (\<^verbatim>\<open>Rules().Sync()\<close>), and the timer, the ticker and the
  \<^verbatim>\<open>select\<close> of \<^verbatim>\<open>DeleteImm\<close>. What the outside answers is the environment's:
  the outcome of the \<open>k\<close>-th \<^verbatim>\<open>Flush\<close>, \<^verbatim>\<open>ListChains\<close>, rule-store sync and
  \<^verbatim>\<open>select\<close>. Which channel a \<^verbatim>\<open>select\<close> receives from depends on real time; the
  model takes it from the environment.
\<close>

datatype effect =
    CallAddChain Chain
  | CallDelChain "Chain option"
  | CallFlush
  | CallListChains
  | CallRulesSync string
  | NewTimer int
  | NewTicker int
  | Select
  | TickerStop

datatype select_case = TimeoutC | TickerC

record env =
  flushResult :: "nat \<Rightarrow> error option"
  listChainsResult :: "nat \<Rightarrow> error + Chain list"
  rulesSyncResult :: "nat \<Rightarrow> error option"
  selectResult :: "nat \<Rightarrow> select_case"

record nfChains =
  table :: Table
  chains :: "string \<rightharpoonup> nfChain"
  trace :: "effect list"

definition did :: "effect \<Rightarrow> nfChains \<Rightarrow> nfChains" where
  "did e nfc = nfc\<lparr>trace := trace nfc @ [e]\<rparr>"

definition count_effect :: "effect \<Rightarrow> nfChains \<Rightarrow> nat" where
  "count_effect e nfc = length (filter (\<lambda>x. x = e) (trace nfc))"

definition is_RulesSync :: "effect \<Rightarrow> bool" where
  "is_RulesSync e = (case e of CallRulesSync _ \<Rightarrow> True | _ \<Rightarrow> False)"

text \<open>
  The connection. \<^verbatim>\<open>AddChain\<close> and \<^verbatim>\<open>DelChain\<close> queue a request, and
  \<^verbatim>\<open>AddChain\<close> hands back the chain it was given (the library's behaviour);
  \<^verbatim>\<open>Flush\<close> and \<^verbatim>\<open>ListChains\<close> answer as the environment says.
\<close>

definition AddChain :: "Chain \<Rightarrow> nfChains \<Rightarrow> Chain option \<times> nfChains" where
  "AddChain c nfc = (Some c, did (CallAddChain c) nfc)"

definition DelChain :: "Chain option \<Rightarrow> nfChains \<Rightarrow> nfChains" where
  "DelChain c nfc = did (CallDelChain c) nfc"

definition Flush :: "env \<Rightarrow> nfChains \<Rightarrow> error option \<times> nfChains" where
  "Flush ev nfc = (flushResult ev (count_effect CallFlush nfc), did CallFlush nfc)"

definition ListChains :: "env \<Rightarrow> nfChains \<Rightarrow> (error + Chain list) \<times> nfChains" where
  "ListChains ev nfc =
     (listChainsResult ev (count_effect CallListChains nfc), did CallListChains nfc)"

text \<open>
  Modelled from the spec: the rule store's \<^verbatim>\<open>Sync\<close> (defined in another file of
  the repository) lists the chain's rules from the kernel and reports an error or none. It works
  on the rule store behind the chain's \<^verbatim>\<open>RulesInterface\<close>, not on the chain map.
\<close>

definition RulesSync :: "env \<Rightarrow> string \<Rightarrow> nfChains \<Rightarrow> error option \<times> nfChains" where
  "RulesSync ev name nfc =
     (rulesSyncResult ev (length (filter is_RulesSync (trace nfc))), did (CallRulesSync name) nfc)"

definition select_timeout_or_ticker :: "env \<Rightarrow> nfChains \<Rightarrow> select_case \<times> nfChains" where
  "select_timeout_or_ticker ev nfc = (selectResult ev (count_effect Select nfc), did Select nfc)"

definition is_EBUSY :: "error \<Rightarrow> bool" where
  "is_EBUSY err = (case err of ErrExternal busy _ \<Rightarrow> busy | _ \<Rightarrow> False)"

definition isEqualChain :: "nfChain \<Rightarrow> ChainAttributes option \<Rightarrow> bool" where
  "isEqualChain ch attributes =
     (case chain ch of
        None \<Rightarrow> False
      | Some c \<Rightarrow>
          if RulesInterface ch = None then False
          else if baseChain ch \<and> attributes = None then False
          else if \<not> baseChain ch \<and> attributes \<noteq> None then False
          else (case attributes of
                  None \<Rightarrow> True
                | Some a \<Rightarrow>
                    if \<not> ptr_eq (attrHook a) (Hooknum c) \<or> attrType a \<noteq> Type c
                         \<or> \<not> ptr_eq (attrPriority a) (Priority c)
                      then False
                    else (case attrPolicy a of
                            None \<Rightarrow> True
                          | Some p \<Rightarrow>
                              (case Policy c of
                                 None \<Rightarrow> False
                               | Some q \<Rightarrow> if p \<noteq> q then False else True))))"

definition create :: "string \<Rightarrow> ChainAttributes option \<Rightarrow> nfChains \<Rightarrow> error option \<times> nfChains" where
  "create name attributes nfc =
     (case chains nfc name of
        Some ch \<Rightarrow>
          if isEqualChain ch attributes then (None, nfc)
          else (Some (ErrChainExists name (tblName (table nfc))), nfc)
      | None \<Rightarrow>
          (case attributes of
             Some a \<Rightarrow>
               (case Validate a of
                  Some err \<Rightarrow> (Some err, nfc)
                | None \<Rightarrow>
                    (let policy = (case attrPolicy a of Some p \<Rightarrow> p | None \<Rightarrow> ChainPolicyAccept);
                         (c, nfc1) = AddChain \<lparr>Name = name, Table = table nfc,
                                       Hooknum = attrHook a, Priority = attrPriority a,
                                       Type = attrType a, Policy = Some policy\<rparr> nfc
                     in (None, nfc1\<lparr>chains := (chains nfc1)(name \<mapsto>
                           \<lparr>baseChain = True, chain = c,
                            RulesInterface = newRules (table nfc1) c\<rparr>)\<rparr>)))
           | None \<Rightarrow>
               (let (c, nfc1) = AddChain \<lparr>Name = name, Table = table nfc,
                                  Hooknum = None, Priority = None,
                                  Type = [], Policy = None\<rparr> nfc
                in (None, nfc1\<lparr>chains := (chains nfc1)(name \<mapsto>
                      \<lparr>baseChain = False, chain = c,
                       RulesInterface = newRules (table nfc1) c\<rparr>)\<rparr>))))"

definition Create :: "string \<Rightarrow> ChainAttributes option \<Rightarrow> nfChains \<Rightarrow> error option \<times> nfChains" where
  "Create name attributes nfc = create name attributes nfc"

definition CreateImm ::
  "env \<Rightarrow> string \<Rightarrow> ChainAttributes option \<Rightarrow> nfChains \<Rightarrow> error option \<times> nfChains" where
  "CreateImm ev name attributes nfc =
     (case create name attributes nfc of
        (Some err, nfc1) \<Rightarrow> (Some err, nfc1)
      | (None, nfc1) \<Rightarrow>
          (case Flush ev nfc1 of
             (Some err, nfc2) \<Rightarrow> (Some err, nfc2)
           | (None, nfc2) \<Rightarrow> (None, nfc2)))"


text \<open>
  The loop of \<^verbatim>\<open>DeleteImm\<close> has no bound of its own: it ends when a
  \<^verbatim>\<open>Flush\<close> succeeds or fails with an error other than busy, or when the
  \<^verbatim>\<open>select\<close> receives from the timer. The model counts the rounds it may still run
  (its first argument) and answers \<open>None\<close> when they are used up before the loop ends.
  The deferred \<^verbatim>\<open>ticker.Stop()\<close> runs at every return.
\<close>

fun DeleteImm_loop ::
  "nat \<Rightarrow> env \<Rightarrow> nfChain \<Rightarrow> string \<Rightarrow> nfChains \<Rightarrow> (error option \<times> nfChains) option" where
  "DeleteImm_loop 0 ev ch name nfc = None"
| "DeleteImm_loop (Suc fuel) ev ch name nfc =
     (let nfc1 = DelChain (chain ch) nfc;
          (err, nfc2) = Flush ev nfc1
      in case err of
           None \<Rightarrow> Some (None, did TickerStop (nfc2\<lparr>chains := (chains nfc2)(name := None)\<rparr>))
         | Some e \<Rightarrow>
             if \<not> is_EBUSY e then Some (Some e, did TickerStop nfc2)
             else (case select_timeout_or_ticker ev nfc2 of
                     (TimeoutC, nfc3) \<Rightarrow> Some (Some e, did TickerStop nfc3)
                   | (TickerC, nfc3) \<Rightarrow> DeleteImm_loop fuel ev ch name nfc3))"

definition DeleteImm ::
  "nat \<Rightarrow> env \<Rightarrow> string \<Rightarrow> nfChains \<Rightarrow> (error option \<times> nfChains) option" where
  "DeleteImm fuel ev name nfc =
     (case chains nfc name of
        None \<Rightarrow> Some (Some (ErrChainNotExists name), nfc)
      | Some ch \<Rightarrow>
          DeleteImm_loop fuel ev ch name
            (did (NewTicker (ChainDeleteTimeout div 10)) (did (NewTimer ChainDeleteTimeout) nfc)))"

fun Sync_loop :: "env \<Rightarrow> Chain list \<Rightarrow> nfChains \<Rightarrow> error option \<times> nfChains" where
  "Sync_loop ev [] nfc = (None, nfc)"
| "Sync_loop ev (c # cs) nfc =
     (if tblName (Table c) = tblName (table nfc) \<and> tblFamily (Table c) = tblFamily (table nfc)
      then
        (case chains nfc (Name c) of
           Some ch \<Rightarrow> Sync_loop ev cs nfc
         | None \<Rightarrow>
             (let baseChain0 = False;
                  baseChain1 = (if Type c \<noteq> [] \<and> \<not> ptr_eq (Hooknum c) ChainHookPrerouting
                                then True else baseChain0);
                  nfc1 = nfc\<lparr>chains := (chains nfc)(Name c \<mapsto>
                           \<lparr>baseChain = baseChain1, chain = Some c,
                            RulesInterface = newRules (table nfc) (Some c)\<rparr>)\<rparr>;
                  (err, nfc2) = RulesSync ev (Name c) nfc1
              in case err of
                   Some e \<Rightarrow> (Some e, nfc2)
                 | None \<Rightarrow> Sync_loop ev cs nfc2))
      else Sync_loop ev cs nfc)"

definition Sync :: "env \<Rightarrow> nfChains \<Rightarrow> error option \<times> nfChains" where
  "Sync ev nfc =
     (case ListChains ev nfc of
        (Inl err, nfc1) \<Rightarrow> (Some err, nfc1)
      | (Inr cs, nfc1) \<Rightarrow> Sync_loop ev cs nfc1)"

fun Exist_loop :: "env \<Rightarrow> string \<Rightarrow> Chain list \<Rightarrow> nfChains \<Rightarrow> bool \<times> nfChains" where
  "Exist_loop ev name [] nfc = (False, nfc)"
| "Exist_loop ev name (c # cs) nfc =
     (if Name c = name then
        (if tblName (table nfc) = tblName (Table c) \<and> tblFamily (table nfc) = tblFamily (Table c)
         then (case Sync ev nfc of
                 (None, nfc1) \<Rightarrow> (True, nfc1)
               | (Some err, nfc1) \<Rightarrow> (False, nfc1))
         else Exist_loop ev name cs nfc)
      else Exist_loop ev name cs nfc)"

definition Exist :: "env \<Rightarrow> string \<Rightarrow> nfChains \<Rightarrow> bool \<times> nfChains" where
  "Exist ev name nfc =
     (case chains nfc name of
        Some ch \<Rightarrow> (True, nfc)
      | None \<Rightarrow>
          (case ListChains ev nfc of
             (Inl err, nfc1) \<Rightarrow> (False, nfc1)
           | (Inr cs, nfc1) \<Rightarrow> Exist_loop ev name cs nfc1))"

section \<open>Observers and sample inputs\<close>

text \<open>
  \<open>l3_addrOffset\<close> reads the local \<^verbatim>\<open>addrOffset\<close> of \<^verbatim>\<open>createL3\<close> at the point
  where the function tests \<^verbatim>\<open>ruleAddr\<close>: the offset it passes on to the builders.
\<close>

definition l3_addrOffset :: "8 word \<Rightarrow> L3Rule \<Rightarrow> NFSet \<Rightarrow> error + 32 word" where
  "l3_addrOffset l3proto l3 set0 =
     (case createL3_locals l3proto l3 set0 of
        Inl err \<Rightarrow> Inl err
      | Inr (ruleAddr, addrOffset, set2) \<Rightarrow> Inr addrOffset)"

text \<open>
  Sample inputs on which the statements below are evaluated: builders that answer with
  the names of the instructions they stand for, the addresses of the README's example
  in the 16-byte form \<^verbatim>\<open>net.ParseIP\<close> returns, an IPv6 address, and rules built
  from them.
\<close>

definition TypeInvalid :: SetDatatype where
  "TypeInvalid = \<lparr>sdName = ''invalid'', sdBytes = 0, nftMagic = 0\<rparr>"

definition label_builders :: "string builders" where
  "label_builders =
     \<lparr>getExprForSingleIP = (\<lambda>l3proto offset a excl. Inr [''payload'', ''cmp'']),
      getExprForListIP = (\<lambda>l3proto s offset excl. Inr [''payload'', ''lookup'']),
      getExprForRangeIP = (\<lambda>l3proto offset rng excl. Inr [''payload'', ''range'']),
      getExprForIPVersion = (\<lambda>version excl. Inr [''payload'', ''bitwise'', ''cmp''])\<rparr>"

definition ip_1_2_3_4 :: IPAddr where
  "ip_1_2_3_4 =
     \<lparr>IP = [0, 0, 0, 0, 0, 0, 0, 0, 0, 0, 0xff, 0xff, 1, 2, 3, 4], CIDR = False, Mask = None\<rparr>"

definition ip_2_3_4_5 :: IPAddr where
  "ip_2_3_4_5 =
     \<lparr>IP = [0, 0, 0, 0, 0, 0, 0, 0, 0, 0, 0xff, 0xff, 2, 3, 4, 5], CIDR = False, Mask = None\<rparr>"

definition ip_2001_1__2 :: IPAddr where
  "ip_2001_1__2 =
     \<lparr>IP = [0x20, 0x01, 0, 0x01, 0, 0, 0, 0, 0, 0, 0, 0, 0, 0, 0, 2], CIDR = False, Mask = None\<rparr>"

definition set_1 :: NFSet where
  "set_1 = \<lparr>setID = 1, setName = ''ipv4rule-1'', KeyType = TypeInvalid\<rparr>"

definition spec_two :: IPAddrSpec where
  "spec_two = \<lparr>AddrList = [ip_1_2_3_4, ip_2_3_4_5], AddrRange = (None, None)\<rparr>"

definition spec_one :: IPAddrSpec where
  "spec_one = \<lparr>AddrList = [ip_1_2_3_4], AddrRange = (None, None)\<rparr>"

definition rule_src :: Rule where
  "rule_src = \<lparr>L3 = \<lparr>Src = Some spec_two, Dst = None, Version = None, Protocol = None\<rparr>,
                Exclude = False\<rparr>"

definition rule_dst :: Rule where
  "rule_dst = \<lparr>L3 = \<lparr>Src = None, Dst = Some spec_two, Version = None, Protocol = None\<rparr>,
                Exclude = False\<rparr>"

definition rule_src_dst :: Rule where
  "rule_src_dst =
     \<lparr>L3 = \<lparr>Src = Some spec_one, Dst = Some spec_two, Version = None, Protocol = None\<rparr>,
      Exclude = False\<rparr>"

definition spec_range :: IPAddrSpec where
  "spec_range = \<lparr>AddrList = [], AddrRange = (Some ip_1_2_3_4, Some ip_2_3_4_5)\<rparr>"

definition rule_src_dst_range :: Rule where
  "rule_src_dst_range =
     \<lparr>L3 = \<lparr>Src = Some spec_one, Dst = Some spec_range, Version = None, Protocol = None\<rparr>,
      Exclude = True\<rparr>"

text \<open>
  Observers of the chain store. \<open>of_table\<close> is the test both \<^verbatim>\<open>Sync\<close> and
  \<^verbatim>\<open>Exist\<close> apply to a listed chain; \<open>synced_entry\<close> is the entry \<^verbatim>\<open>Sync\<close>
  builds for a listed chain and \<open>sync_insert\<close> the store after it was inserted and its
  rule store called. \<open>retry_round\<close> is what one round of the loop of \<^verbatim>\<open>DeleteImm\<close>
  leaves in the trace when it goes round again, \<open>delete_timers\<close> what the function does
  before the loop, and \<open>busy_rounds ev nfc n\<close> says of the environment that the next
  \<open>n\<close> rounds each end in a busy \<^verbatim>\<open>Flush\<close> followed by a tick of the ticker.
  \<open>kernel_built\<close> holds of a chain as a kernel listing reports it: the library
  decodes each listed chain into pointers it allocates, so the hook pointer is
  \<^verbatim>\<open>nil\<close> (no hook) or an allocation, never one of the library's variables.
\<close>

definition kernel_built :: "Chain \<Rightarrow> bool" where
  "kernel_built c =
     (case Hooknum c of
        None \<Rightarrow> True
      | Some r \<Rightarrow> (case addr_of r of Heap a \<Rightarrow> True | Global g \<Rightarrow> False))"

definition of_table :: "Table \<Rightarrow> Chain \<Rightarrow> bool" where
  "of_table t c = (tblName (Table c) = tblName t \<and> tblFamily (Table c) = tblFamily t)"

definition synced_entry :: "Table \<Rightarrow> Chain \<Rightarrow> nfChain" where
  "synced_entry t c =
     \<lparr>baseChain = (Type c \<noteq> [] \<and> \<not> ptr_eq (Hooknum c) ChainHookPrerouting),
      chain = Some c, RulesInterface = newRules t (Some c)\<rparr>"

definition sync_insert :: "Chain \<Rightarrow> nfChains \<Rightarrow> nfChains" where
  "sync_insert c nfc =
     nfc\<lparr>chains := (chains nfc)(Name c \<mapsto> synced_entry (table nfc) c),
          trace := trace nfc @ [CallRulesSync (Name c)]\<rparr>"

definition retry_round :: "nfChain \<Rightarrow> effect list" where
  "retry_round ch = [CallDelChain (chain ch), CallFlush, Select]"

definition delete_timers :: "effect list" where
  "delete_timers = [NewTimer ChainDeleteTimeout, NewTicker (ChainDeleteTimeout div 10)]"

definition busy_rounds :: "env \<Rightarrow> nfChains \<Rightarrow> nat \<Rightarrow> bool" where
  "busy_rounds ev nfc n =
     (\<forall>i<n. (case flushResult ev (count_effect CallFlush nfc + i) of
                None \<Rightarrow> False | Some e \<Rightarrow> is_EBUSY e)
            \<and> selectResult ev (count_effect Select nfc + i) = TickerC)"

text \<open>
  Sample inputs of the chain store: a table, the empty store and the store after one
  \<^verbatim>\<open>Create\<close>, attributes that point at the library's variables as the callers'
  do, environments, and chains as a kernel listing returns them, with pointers of their
  own. \<open>kchain_2\<close> is hooked at prerouting (hook value 0).
\<close>

definition table_1 :: Table where
  "table_1 = \<lparr>tblName = ''ipv4table'', tblFamily = TableFamilyIPv4\<rparr>"

definition store_0 :: nfChains where
  "store_0 = \<lparr>table = table_1, chains = Map.empty, trace = []\<rparr>"

definition ChainHookInput :: "32 word ptr" where
  "ChainHookInput = Some (Ref (Global ''ChainHookInput'') 1)"

definition ChainPriorityFirst :: "32 word ptr" where
  "ChainPriorityFirst = Some (Ref (Global ''ChainPriorityFirst'') 0x80000000)"

definition attrs_drop :: ChainAttributes where
  "attrs_drop = \<lparr>attrType = ''filter'', attrHook = ChainHookInput,
                  attrPriority = ChainPriorityFirst, attrDevice = [],
                  attrPolicy = Some ChainPolicyDrop\<rparr>"




definition store_1 :: nfChains where
  "store_1 = snd (Create ''chain-1'' (Some attrs_drop) store_0)"

definition chain_1 :: Chain where
  "chain_1 = \<lparr>Name = ''chain-1'', Table = table_1, Hooknum = ChainHookInput,
               Priority = ChainPriorityFirst, Type = ''filter'', Policy = Some ChainPolicyDrop\<rparr>"

definition nfChain_1 :: nfChain where
  "nfChain_1 = \<lparr>baseChain = True, chain = Some chain_1,
                 RulesInterface = Some (RulesOf table_1 (Some chain_1))\<rparr>"

definition synced :: "Table \<Rightarrow> bool \<Rightarrow> Chain \<Rightarrow> nfChain" where
  "synced t b c = \<lparr>baseChain = b, chain = Some c, RulesInterface = Some (RulesOf t (Some c))\<rparr>"

definition EBUSY :: error where
  "EBUSY = ErrExternal True ''device or resource busy''"

definition EPERM :: error where
  "EPERM = ErrExternal False ''operation not permitted''"

definition env_quiet :: env where
  "env_quiet = \<lparr>flushResult = (\<lambda>k. None), listChainsResult = (\<lambda>k. Inr []),
                 rulesSyncResult = (\<lambda>k. None), selectResult = (\<lambda>k. TickerC)\<rparr>"

definition env_busy_twice :: env where
  "env_busy_twice = env_quiet\<lparr>flushResult := (\<lambda>k. if k < 2 then Some EBUSY else None)\<rparr>"

definition env_busy_until_timeout :: env where
  "env_busy_until_timeout =
     env_quiet\<lparr>flushResult := (\<lambda>k. Some EBUSY),
               selectResult := (\<lambda>k. if k < 2 then TickerC else TimeoutC)\<rparr>"

definition env_flush_fails :: env where
  "env_flush_fails = env_quiet\<lparr>flushResult := (\<lambda>k. Some EPERM)\<rparr>"

definition kchain_1 :: Chain where
  "kchain_1 = \<lparr>Name = ''chain-1'', Table = table_1, Hooknum = Some (Ref (Heap 1) 1),
                Priority = Some (Ref (Heap 2) 0x80000000), Type = ''filter'',
                Policy = Some ChainPolicyDrop\<rparr>"

definition kchain_2 :: Chain where
  "kchain_2 = \<lparr>Name = ''chain-2'', Table = table_1, Hooknum = Some (Ref (Heap 3) 0),
                Priority = Some (Ref (Heap 4) 0x80000000), Type = ''nat'',
                Policy = Some ChainPolicyAccept\<rparr>"

definition kchain_3 :: Chain where
  "kchain_3 = \<lparr>Name = ''chain-3'', Table = table_1, Hooknum = None,
                Priority = None, Type = [], Policy = None\<rparr>"

definition env_kernel :: env where
  "env_kernel = env_quiet\<lparr>listChainsResult := (\<lambda>k. Inr [kchain_1, kchain_2, kchain_3])\<rparr>"

definition env_rules_sync_fails :: env where
  "env_rules_sync_fails = env_kernel\<lparr>rulesSyncResult := (\<lambda>k. Some EPERM)\<rparr>"

definition env_list_fails :: env where
  "env_list_fails = env_quiet\<lparr>listChainsResult := (\<lambda>k. Inl EPERM)\<rparr>"



section \<open>Facts about the layer-3 compiler\<close>

text \<open>The loop that fills the keys computes one element per address, in order.\<close>

lemma SetElement_Key_update: "(r::SetElement)\<lparr>Key := v\<rparr> = \<lparr>Key = v\<rparr>"
  by (cases r) simp

lemma fillKeys_take:
  "k \<le> length list \<Longrightarrow> length se = length list \<Longrightarrow>
   fold (\<lambda>i se. se[i := (se ! i)\<lparr>Key := conv (IP (list ! i))\<rparr>]) [0..<k] se
     = map (\<lambda>a. \<lparr>Key = conv (IP a)\<rparr>) (take k list) @ drop k se"
proof (induction k)
  case 0
  then show ?case by simp
next
  case (Suc k)
  then have k: "k < length list" "k < length se" by simp_all
  have "map (\<lambda>a. \<lparr>Key = conv (IP a)\<rparr>) (take (Suc k) list) @ drop (Suc k) se
        = (map (\<lambda>a. \<lparr>Key = conv (IP a)\<rparr>) (take k list) @ drop k se)
            [k := \<lparr>Key = conv (IP (list ! k))\<rparr>]"
    using k by (simp add: take_Suc_conv_app_nth list_update_append
                 Cons_nth_drop_Suc [symmetric])
  then show ?case using Suc by (simp add: SetElement_Key_update)
qed

lemma fillKeys_map:
  "fillKeys conv list (replicate (length list) e) = map (\<lambda>a. \<lparr>Key = conv (IP a)\<rparr>) list"
  using fillKeys_take [of "length list" list "replicate (length list) e" conv]
  by (simp add: fillKeys_def)

lemma processAddrList_one:
  "length list = 1 \<Longrightarrow>
   processAddrList h l3proto offset list excl set0 =
     (case getExprForSingleIP h l3proto offset (hd list) excl of
        Inl err \<Rightarrow> Inl err
      | Inr expr \<Rightarrow> Inr (\<lparr>Exprs = expr\<rparr>, []))"
  by (cases list) (simp_all add: processAddrList_def)

lemma processAddrList_IPv4:
  "2 \<le> length list \<Longrightarrow>
   processAddrList h TableFamilyIPv4 offset list excl set0 =
     (case getExprForListIP h TableFamilyIPv4 set0 offset excl of
        Inl err \<Rightarrow> Inl err
      | Inr re \<Rightarrow> Inr (\<lparr>Exprs = re\<rparr>, map (\<lambda>a. \<lparr>Key = To4 (IP a)\<rparr>) list))"
proof -
  assume "2 \<le> length list"
  then have "list \<noteq> []" and "length list \<noteq> 1" by auto
  then show ?thesis
    by (simp add: processAddrList_def fillKeys_map TableFamilyIPv4_def TableFamilyIPv6_def Let_def
             split: sum.splits)
qed

lemma processAddrList_IPv6:
  "2 \<le> length list \<Longrightarrow>
   processAddrList h TableFamilyIPv6 offset list excl set0 =
     (case getExprForListIP h TableFamilyIPv6 set0 offset excl of
        Inl err \<Rightarrow> Inl err
      | Inr re \<Rightarrow> Inr (\<lparr>Exprs = re\<rparr>, map (\<lambda>a. \<lparr>Key = To16 (IP a)\<rparr>) list))"
proof -
  assume "2 \<le> length list"
  then have "list \<noteq> []" and "length list \<noteq> 1" by auto
  then show ?thesis
    by (simp add: processAddrList_def fillKeys_map TableFamilyIPv4_def TableFamilyIPv6_def Let_def
             split: sum.splits)
qed

lemma To4_length: "To4 ip \<noteq> [] \<Longrightarrow> length (To4 ip) = 4"
  by (auto simp: To4_def split: if_splits)

lemma To16_length: "To16 ip \<noteq> [] \<Longrightarrow> length (To16 ip) = 16"
  by (auto simp: To16_def v4InV6Prefix_def split: if_splits)

lemma ex_To4: "To4 (IP ip_1_2_3_4) = [1,2,3,4]" "To4 (IP ip_2_3_4_5) = [2,3,4,5]" "To4 (IP ip_2001_1__2) = []"
  by (simp_all add: To4_def ip_1_2_3_4_def ip_2_3_4_5_def ip_2001_1__2_def)


text \<open>
  Claim C1, as the code has it. A list of exactly one address compiles to what the
  single-address builder answers: on success a rule with that builder's expressions
  and no set elements, on failure the builder's error. A list of two or more addresses
  under IPv4 (respectively IPv6) compiles, when the list builder succeeds, to a rule
  with the list builder's expressions and exactly one set element per list entry, in
  order, whose key is \<^verbatim>\<open>To4\<close> (respectively \<^verbatim>\<open>To16\<close>) of the entry's address; when
  the list builder fails, to its error. Such a key has 4 (respectively 16) bytes
  whenever the conversion does not answer \<^verbatim>\<open>nil\<close>. \<^verbatim>\<open>createL3\<close> hands every
  non-empty list of the spec it selected to \<^verbatim>\<open>processAddrList\<close>.
\<close>

theorem processAddrList_single_or_set:
  "(length list = 1 \<longrightarrow>
      processAddrList h l3proto offset list excl set0 =
        (case getExprForSingleIP h l3proto offset (hd list) excl of
           Inl err \<Rightarrow> Inl err
         | Inr expr \<Rightarrow> Inr (\<lparr>Exprs = expr\<rparr>, [])))
   \<and> (2 \<le> length list \<longrightarrow>
        processAddrList h TableFamilyIPv4 offset list excl set0 =
          (case getExprForListIP h TableFamilyIPv4 set0 offset excl of
             Inl err \<Rightarrow> Inl err
           | Inr re \<Rightarrow> Inr (\<lparr>Exprs = re\<rparr>, map (\<lambda>a. \<lparr>Key = To4 (IP a)\<rparr>) list))
      \<and> processAddrList h TableFamilyIPv6 offset list excl set0 =
          (case getExprForListIP h TableFamilyIPv6 set0 offset excl of
             Inl err \<Rightarrow> Inl err
           | Inr re \<Rightarrow> Inr (\<lparr>Exprs = re\<rparr>, map (\<lambda>a. \<lparr>Key = To16 (IP a)\<rparr>) list)))
   \<and> (\<forall>a \<in> set list. (To4 (IP a) \<noteq> [] \<longrightarrow> length (To4 (IP a)) = 4)
                      \<and> (To16 (IP a) \<noteq> [] \<longrightarrow> length (To16 (IP a)) = 16))
   \<and> (list \<noteq> [] \<longrightarrow>
        l3_addr_block h l3proto offset (Some \<lparr>AddrList = list, AddrRange = rng\<rparr>) excl set0
          = processAddrList h l3proto offset list excl set0)"
  by (simp add: processAddrList_one processAddrList_IPv4 processAddrList_IPv6
        To4_length To16_length l3_addr_block_def)

theorem processAddrList_single_or_set_witness:
  "length [ip_1_2_3_4] = 1 \<and> 2 \<le> length [ip_1_2_3_4, ip_2_3_4_5]
   \<and> processAddrList label_builders TableFamilyIPv4 16 [ip_1_2_3_4] False set_1
       = Inr (\<lparr>Exprs = [''payload'', ''cmp'']\<rparr>, [])
   \<and> processAddrList label_builders TableFamilyIPv4 16 [ip_1_2_3_4, ip_2_3_4_5] False set_1
       = Inr (\<lparr>Exprs = [''payload'', ''lookup'']\<rparr>, [\<lparr>Key = [1, 2, 3, 4]\<rparr>, \<lparr>Key = [2, 3, 4, 5]\<rparr>])
   \<and> processAddrList label_builders TableFamilyIPv6 24 [ip_1_2_3_4, ip_2_3_4_5] False set_1
       = Inr (\<lparr>Exprs = [''payload'', ''lookup'']\<rparr>,
              [\<lparr>Key = [0, 0, 0, 0, 0, 0, 0, 0, 0, 0, 0xff, 0xff, 1, 2, 3, 4]\<rparr>,
               \<lparr>Key = [0, 0, 0, 0, 0, 0, 0, 0, 0, 0, 0xff, 0xff, 2, 3, 4, 5]\<rparr>])
   \<and> length (To4 (IP ip_1_2_3_4)) = 4 \<and> length (To16 (IP ip_1_2_3_4)) = 16"
proof -
  have t16: "To16 (IP ip_1_2_3_4) = [0, 0, 0, 0, 0, 0, 0, 0, 0, 0, 0xff, 0xff, 1, 2, 3, 4]"
    "To16 (IP ip_2_3_4_5) = [0, 0, 0, 0, 0, 0, 0, 0, 0, 0, 0xff, 0xff, 2, 3, 4, 5]"
    by (simp_all add: To16_def ip_1_2_3_4_def ip_2_3_4_5_def)
  have g: "getExprForListIP label_builders = (\<lambda>l3proto s offset excl. Inr [''payload'', ''lookup''])"
    "getExprForSingleIP label_builders = (\<lambda>l3proto offset a excl. Inr [''payload'', ''cmp''])"
    by (simp_all add: label_builders_def)
  show ?thesis
    using processAddrList_single_or_set
            [where list = "[ip_1_2_3_4]" and h = label_builders and l3proto = TableFamilyIPv4
               and offset = 16 and excl = False and ?set0.0 = set_1]
          processAddrList_single_or_set
            [where list = "[ip_1_2_3_4, ip_2_3_4_5]" and h = label_builders
               and l3proto = TableFamilyIPv4 and offset = 16 and excl = False and ?set0.0 = set_1]
          processAddrList_single_or_set
            [where list = "[ip_1_2_3_4, ip_2_3_4_5]" and h = label_builders
               and l3proto = TableFamilyIPv6 and offset = 24 and excl = False and ?set0.0 = set_1]
    by (simp add: g ex_To4 t16)
qed


text \<open>
  The claim as first stated promised a 4-byte key for every entry of an IPv4 list. An
  IPv6 address in a list compiled for IPv4 gets the \<^verbatim>\<open>nil\<close> key.
\<close>

theorem processAddrList_mixed_family_counterexample:
  "processAddrList label_builders TableFamilyIPv4 16 [ip_2001_1__2, ip_1_2_3_4] False set_1
     = Inr (\<lparr>Exprs = [''payload'', ''lookup'']\<rparr>, [\<lparr>Key = []\<rparr>, \<lparr>Key = [1, 2, 3, 4]\<rparr>])"
  by (simp add: processAddrList_IPv4 label_builders_def ex_To4)


text \<open>
  \<^verbatim>\<open>createL3\<close> with no version set is its two selection blocks followed by the
  address block.
\<close>

lemma createL3_by_locals:
  "Version (L3 rule) = None \<Longrightarrow>
   createL3 h l3proto rule set0 =
     (case createL3_locals l3proto (L3 rule) set0 of
        Inl err \<Rightarrow> (set0, Inl err)
      | Inr (ruleAddr, addrOffset, set2) \<Rightarrow>
          (set2, l3_addr_block h l3proto addrOffset ruleAddr (Exclude rule) set2))"
  by (auto simp: createL3_def createL3_locals_def l3_src_block_def l3_dst_block_def Let_def
           split: option.splits sum.splits if_splits)

lemma createL3_locals_dst:
  "Dst l3 = Some d \<Longrightarrow>
   createL3_locals TableFamilyIPv4 l3 set0 = Inr (Some d, 16, set0\<lparr>KeyType := TypeIPAddr\<rparr>)
   \<and> createL3_locals TableFamilyIPv6 l3 set0 = Inr (Some d, 24, set0\<lparr>KeyType := TypeIP6Addr\<rparr>)"
  by (simp add: createL3_locals_def l3_src_block_def l3_dst_block_def
        TableFamilyIPv4_def TableFamilyIPv6_def split: option.splits)

lemma createL3_locals_src:
  "Dst l3 = None \<Longrightarrow> Src l3 = Some a \<Longrightarrow>
   createL3_locals TableFamilyIPv4 l3 set0 = Inr (Some a, 12, set0\<lparr>KeyType := TypeIPAddr\<rparr>)
   \<and> createL3_locals TableFamilyIPv6 l3 set0 = Inr (Some a, 8, set0\<lparr>KeyType := TypeIP6Addr\<rparr>)"
  by (simp add: createL3_locals_def l3_src_block_def l3_dst_block_def
        TableFamilyIPv4_def TableFamilyIPv6_def split: option.splits)


text \<open>
  Claim C2, as the code has it. For a rule with no version set, the offset
  \<^verbatim>\<open>createL3\<close> passes on is the one its two selection blocks leave, and it depends
  on the family and on the direction only: with a destination spec 16 under IPv4 and
  24 under IPv6, with a source spec and no destination spec 12 under IPv4 and 8 under
  IPv6. Source and destination offsets differ within each family, and IPv6's differ
  from IPv4's: the destination offset is larger (24 against 16), the source offset is
  smaller (8 against 12).
\<close>

theorem createL3_offset_by_family_and_direction:
  assumes "Version (L3 rule) = None"
  shows "(case createL3_locals l3proto (L3 rule) set0 of
            Inl err \<Rightarrow> createL3 h l3proto rule set0 = (set0, Inl err)
          | Inr (ruleAddr, addrOffset, set2) \<Rightarrow>
              createL3 h l3proto rule set0
                = (set2, l3_addr_block h l3proto addrOffset ruleAddr (Exclude rule) set2))
       \<and> (Dst (L3 rule) \<noteq> None \<longrightarrow>
            l3_addrOffset TableFamilyIPv4 (L3 rule) set0 = Inr 16
          \<and> l3_addrOffset TableFamilyIPv6 (L3 rule) set0 = Inr 24)
       \<and> (Dst (L3 rule) = None \<and> Src (L3 rule) \<noteq> None \<longrightarrow>
            l3_addrOffset TableFamilyIPv4 (L3 rule) set0 = Inr 12
          \<and> l3_addrOffset TableFamilyIPv6 (L3 rule) set0 = Inr 8)
       \<and> (12::32 word) \<noteq> 16 \<and> (8::32 word) \<noteq> 24
       \<and> (16::32 word) < 24 \<and> (8::32 word) < 12"
proof (intro conjI impI)
  show "case createL3_locals l3proto (L3 rule) set0 of
            Inl err \<Rightarrow> createL3 h l3proto rule set0 = (set0, Inl err)
          | Inr (ruleAddr, addrOffset, set2) \<Rightarrow>
              createL3 h l3proto rule set0
                = (set2, l3_addr_block h l3proto addrOffset ruleAddr (Exclude rule) set2)"
    using assms by (simp add: createL3_by_locals split: sum.splits prod.splits)
next
  assume "Dst (L3 rule) \<noteq> None"
  then obtain d where d: "Dst (L3 rule) = Some d" by auto
  show "l3_addrOffset TableFamilyIPv4 (L3 rule) set0 = Inr 16"
    using createL3_locals_dst [OF d] by (simp add: l3_addrOffset_def)
  show "l3_addrOffset TableFamilyIPv6 (L3 rule) set0 = Inr 24"
    using createL3_locals_dst [OF d] by (simp add: l3_addrOffset_def)
next
  assume "Dst (L3 rule) = None \<and> Src (L3 rule) \<noteq> None"
  then obtain a where a: "Dst (L3 rule) = None" "Src (L3 rule) = Some a" by auto
  show "l3_addrOffset TableFamilyIPv4 (L3 rule) set0 = Inr 12"
    using createL3_locals_src [OF a] by (simp add: l3_addrOffset_def)
  show "l3_addrOffset TableFamilyIPv6 (L3 rule) set0 = Inr 8"
    using createL3_locals_src [OF a] by (simp add: l3_addrOffset_def)
qed simp_all

theorem createL3_offset_by_family_and_direction_witness:
  "Version (L3 rule_dst) = None
   \<and> l3_addrOffset TableFamilyIPv4 (L3 rule_dst) set_1 = Inr 16
   \<and> l3_addrOffset TableFamilyIPv6 (L3 rule_dst) set_1 = Inr 24
   \<and> l3_addrOffset TableFamilyIPv4 (L3 rule_src) set_1 = Inr 12
   \<and> l3_addrOffset TableFamilyIPv6 (L3 rule_src) set_1 = Inr 8
   \<and> createL3 label_builders TableFamilyIPv4 rule_dst set_1
       = (set_1\<lparr>KeyType := TypeIPAddr\<rparr>,
          Inr (\<lparr>Exprs = [''payload'', ''lookup'']\<rparr>, [\<lparr>Key = [1, 2, 3, 4]\<rparr>, \<lparr>Key = [2, 3, 4, 5]\<rparr>]))"
proof -
  have v: "Version (L3 rule_dst) = None" "Version (L3 rule_src) = None"
    by (simp_all add: rule_dst_def rule_src_def)
  have d: "Dst (L3 rule_dst) = Some spec_two" "Dst (L3 rule_src) = None" "Src (L3 rule_src) = Some spec_two"
    by (simp_all add: rule_dst_def rule_src_def)
  have l: "createL3_locals TableFamilyIPv4 (L3 rule_dst) set_1
             = Inr (Some spec_two, 16, set_1\<lparr>KeyType := TypeIPAddr\<rparr>)"
    using createL3_locals_dst [OF d(1)] by simp
  have b: "l3_addr_block label_builders TableFamilyIPv4 16 (Some spec_two) (Exclude rule_dst)
             (set_1\<lparr>KeyType := TypeIPAddr\<rparr>)
           = Inr (\<lparr>Exprs = [''payload'', ''lookup'']\<rparr>, [\<lparr>Key = [1, 2, 3, 4]\<rparr>, \<lparr>Key = [2, 3, 4, 5]\<rparr>])"
    by (simp add: l3_addr_block_def spec_two_def processAddrList_IPv4 label_builders_def ex_To4)
  show ?thesis
    using createL3_offset_by_family_and_direction
            [OF v(1), where l3proto = TableFamilyIPv4 and ?set0.0 = set_1 and h = label_builders]
      createL3_offset_by_family_and_direction
            [OF v(2), where l3proto = TableFamilyIPv4 and ?set0.0 = set_1 and h = label_builders]
    by (simp add: v d l b)
qed


text \<open>
  The claim as first stated had both IPv6 offsets larger than IPv4's. The IPv6 source
  offset is 8, the IPv4 source offset 12.
\<close>

theorem createL3_ipv6_source_offset_counterexample:
  "l3_addrOffset TableFamilyIPv4 (L3 rule_src) set_1 = Inr 12
   \<and> l3_addrOffset TableFamilyIPv6 (L3 rule_src) set_1 = Inr 8
   \<and> \<not> ((12::32 word) < 8)"
  by (simp add: l3_addrOffset_def createL3_locals_def l3_src_block_def l3_dst_block_def
        rule_src_def TableFamilyIPv4_def TableFamilyIPv6_def)


lemma createL3_with_dst:
  assumes "Version (L3 rule) = None" and "Dst (L3 rule) = Some d"
  shows "createL3 h TableFamilyIPv4 rule set0
           = (set0\<lparr>KeyType := TypeIPAddr\<rparr>,
              l3_addr_block h TableFamilyIPv4 16 (Some d) (Exclude rule)
                (set0\<lparr>KeyType := TypeIPAddr\<rparr>))"
    and "createL3 h TableFamilyIPv6 rule set0
           = (set0\<lparr>KeyType := TypeIP6Addr\<rparr>,
              l3_addr_block h TableFamilyIPv6 24 (Some d) (Exclude rule)
                (set0\<lparr>KeyType := TypeIP6Addr\<rparr>))"
    and "l3proto \<noteq> TableFamilyIPv4 \<Longrightarrow> l3proto \<noteq> TableFamilyIPv6 \<Longrightarrow>
         createL3 h l3proto rule set0 = (set0, Inl (ErrUnknownTableFamily l3proto))"
  using assms
  by (auto simp: createL3_by_locals createL3_locals_def l3_src_block_def l3_dst_block_def
           TableFamilyIPv4_def TableFamilyIPv6_def split: option.splits)

text \<open>
  Claim C8. For a rule with no version set and both a source and a destination spec,
  \<^verbatim>\<open>createL3\<close> returns what it returns for the same rule with the source spec
  removed: the same compiled result and the same write to the set. Both runs leave the
  same locals, which under IPv4 and IPv6 are the destination spec and the destination
  offset. What it returns is fixed by the destination spec alone: under IPv4 and IPv6
  the set with the family's key type written and the compilation of the destination's
  list, or else of its range, at the destination offset (16, respectively 24), or the
  error of an empty spec; under any other family the set as it was and the error of an
  unknown family.
\<close>

theorem createL3_dst_overrides_src:
  assumes "Version (L3 rule) = None" and "Src (L3 rule) = Some a" and "Dst (L3 rule) = Some d"
  shows "createL3 h l3proto rule set0
           = createL3 h l3proto (rule\<lparr>L3 := (L3 rule)\<lparr>Src := None\<rparr>\<rparr>) set0
       \<and> createL3_locals l3proto (L3 rule) set0
           = createL3_locals l3proto ((L3 rule)\<lparr>Src := None\<rparr>) set0
       \<and> (l3proto = TableFamilyIPv4 \<longrightarrow>
            createL3_locals l3proto (L3 rule) set0
              = Inr (Some d, 16, set0\<lparr>KeyType := TypeIPAddr\<rparr>))
       \<and> (l3proto = TableFamilyIPv6 \<longrightarrow>
            createL3_locals l3proto (L3 rule) set0
              = Inr (Some d, 24, set0\<lparr>KeyType := TypeIP6Addr\<rparr>))
       \<and> createL3 h l3proto rule set0 =
           (if l3proto = TableFamilyIPv4 \<or> l3proto = TableFamilyIPv6 then
              (let addrOffset = (if l3proto = TableFamilyIPv4 then 16 else 24);
                   set2 = set0\<lparr>KeyType := (if l3proto = TableFamilyIPv4
                                             then TypeIPAddr else TypeIP6Addr)\<rparr>
               in (set2,
                   if AddrList d \<noteq> []
                     then processAddrList h l3proto addrOffset (AddrList d) (Exclude rule) set2
                   else if fst (AddrRange d) \<noteq> None \<and> snd (AddrRange d) \<noteq> None
                     then (case getExprForRangeIP h l3proto addrOffset (AddrRange d)
                                 (Exclude rule) of
                             Inl err \<Rightarrow> Inl err
                           | Inr re \<Rightarrow> Inr (\<lparr>Exprs = re\<rparr>, []))
                   else Inl ErrEmptyAddr))
            else (set0, Inl (ErrUnknownTableFamily l3proto)))"
proof -
  have loc: "createL3_locals l3proto (L3 rule) set0
           = createL3_locals l3proto ((L3 rule)\<lparr>Src := None\<rparr>) set0"
    using assms by (simp add: createL3_locals_def l3_src_block_def l3_dst_block_def)
  have v: "Version (L3 (rule\<lparr>L3 := (L3 rule)\<lparr>Src := None\<rparr>\<rparr>)) = None"
    using assms by simp
  have same: "createL3 h l3proto rule set0
           = createL3 h l3proto (rule\<lparr>L3 := (L3 rule)\<lparr>Src := None\<rparr>\<rparr>) set0"
    unfolding createL3_by_locals [OF assms(1)] createL3_by_locals [OF v] using loc
    by (simp split: sum.splits prod.splits)
  have l4: "l3proto = TableFamilyIPv4 \<longrightarrow>
            createL3_locals l3proto (L3 rule) set0
              = Inr (Some d, 16, set0\<lparr>KeyType := TypeIPAddr\<rparr>)"
    using createL3_locals_dst [OF assms(3)] by simp
  have l6: "l3proto = TableFamilyIPv6 \<longrightarrow>
            createL3_locals l3proto (L3 rule) set0
              = Inr (Some d, 24, set0\<lparr>KeyType := TypeIP6Addr\<rparr>)"
    using createL3_locals_dst [OF assms(3)] by simp
  have ne: "TableFamilyIPv6 \<noteq> TableFamilyIPv4"
    by (simp add: TableFamilyIPv4_def TableFamilyIPv6_def)
  have pinned: "createL3 h l3proto rule set0 =
           (if l3proto = TableFamilyIPv4 \<or> l3proto = TableFamilyIPv6 then
              (let addrOffset = (if l3proto = TableFamilyIPv4 then 16 else 24);
                   set2 = set0\<lparr>KeyType := (if l3proto = TableFamilyIPv4
                                             then TypeIPAddr else TypeIP6Addr)\<rparr>
               in (set2,
                   if AddrList d \<noteq> []
                     then processAddrList h l3proto addrOffset (AddrList d) (Exclude rule) set2
                   else if fst (AddrRange d) \<noteq> None \<and> snd (AddrRange d) \<noteq> None
                     then (case getExprForRangeIP h l3proto addrOffset (AddrRange d)
                                 (Exclude rule) of
                             Inl err \<Rightarrow> Inl err
                           | Inr re \<Rightarrow> Inr (\<lparr>Exprs = re\<rparr>, []))
                   else Inl ErrEmptyAddr))
            else (set0, Inl (ErrUnknownTableFamily l3proto)))"
    using createL3_with_dst [OF assms(1) assms(3)] ne
    by (auto simp: l3_addr_block_def processAddrRange_def Let_def)
  show ?thesis using same loc l4 l6 pinned by blast
qed

lemma createL3_samples:
  "createL3 label_builders TableFamilyIPv4 rule_src_dst set_1
     = (set_1\<lparr>KeyType := TypeIPAddr\<rparr>,
        Inr (\<lparr>Exprs = [''payload'', ''lookup'']\<rparr>,
             [\<lparr>Key = [1, 2, 3, 4]\<rparr>, \<lparr>Key = [2, 3, 4, 5]\<rparr>]))"
  "createL3 label_builders TableFamilyIPv6 rule_src_dst_range set_1
     = (set_1\<lparr>KeyType := TypeIP6Addr\<rparr>, Inr (\<lparr>Exprs = [''payload'', ''range'']\<rparr>, []))"
  "createL3 label_builders 7 rule_src_dst set_1 = (set_1, Inl (ErrUnknownTableFamily 7))"
proof -
  have v: "Version (L3 rule_src_dst) = None" "Dst (L3 rule_src_dst) = Some spec_two"
    "Version (L3 rule_src_dst_range) = None" "Dst (L3 rule_src_dst_range) = Some spec_range"
    "Exclude rule_src_dst = False" "Exclude rule_src_dst_range = True"
    by (simp_all add: rule_src_dst_def rule_src_dst_range_def)
  show "createL3 label_builders TableFamilyIPv4 rule_src_dst set_1
     = (set_1\<lparr>KeyType := TypeIPAddr\<rparr>,
        Inr (\<lparr>Exprs = [''payload'', ''lookup'']\<rparr>,
             [\<lparr>Key = [1, 2, 3, 4]\<rparr>, \<lparr>Key = [2, 3, 4, 5]\<rparr>]))"
    by (simp add: createL3_with_dst(1) [OF v(1) v(2)] v l3_addr_block_def spec_two_def
          processAddrList_IPv4 label_builders_def ex_To4)
  show "createL3 label_builders TableFamilyIPv6 rule_src_dst_range set_1
     = (set_1\<lparr>KeyType := TypeIP6Addr\<rparr>, Inr (\<lparr>Exprs = [''payload'', ''range'']\<rparr>, []))"
    by (simp add: createL3_with_dst(2) [OF v(3) v(4)] v l3_addr_block_def spec_range_def
          processAddrRange_def label_builders_def)
  have "(7::8 word) \<noteq> TableFamilyIPv4" "(7::8 word) \<noteq> TableFamilyIPv6"
    by (simp_all add: TableFamilyIPv4_def TableFamilyIPv6_def)
  then show "createL3 label_builders 7 rule_src_dst set_1
               = (set_1, Inl (ErrUnknownTableFamily 7))"
    by (simp add: createL3_with_dst(3) [OF v(1) v(2)])
qed

theorem createL3_dst_overrides_src_witness:
  "Version (L3 rule_src_dst) = None \<and> Src (L3 rule_src_dst) = Some spec_one
   \<and> Dst (L3 rule_src_dst) = Some spec_two
   \<and> createL3 label_builders TableFamilyIPv4 rule_src_dst set_1
       = createL3 label_builders TableFamilyIPv4
           (rule_src_dst\<lparr>L3 := (L3 rule_src_dst)\<lparr>Src := None\<rparr>\<rparr>) set_1
   \<and> createL3_locals TableFamilyIPv4 (L3 rule_src_dst) set_1
       = Inr (Some spec_two, 16, set_1\<lparr>KeyType := TypeIPAddr\<rparr>)
   \<and> createL3 label_builders TableFamilyIPv4 rule_src_dst set_1
       = (set_1\<lparr>KeyType := TypeIPAddr\<rparr>,
          Inr (\<lparr>Exprs = [''payload'', ''lookup'']\<rparr>,
               [\<lparr>Key = [1, 2, 3, 4]\<rparr>, \<lparr>Key = [2, 3, 4, 5]\<rparr>]))
   \<and> Dst (L3 rule_src_dst_range) = Some spec_range
   \<and> createL3 label_builders TableFamilyIPv6 rule_src_dst_range set_1
       = (set_1\<lparr>KeyType := TypeIP6Addr\<rparr>, Inr (\<lparr>Exprs = [''payload'', ''range'']\<rparr>, []))
   \<and> createL3 label_builders 7 rule_src_dst set_1 = (set_1, Inl (ErrUnknownTableFamily 7))"
proof -
  have h: "Version (L3 rule_src_dst) = None" "Src (L3 rule_src_dst) = Some spec_one"
    "Dst (L3 rule_src_dst) = Some spec_two"
    by (simp_all add: rule_src_dst_def)
  have r: "Dst (L3 rule_src_dst_range) = Some spec_range"
    by (simp add: rule_src_dst_range_def)
  show ?thesis
    using createL3_dst_overrides_src
            [OF h, where h = label_builders and l3proto = TableFamilyIPv4 and ?set0.0 = set_1]
      h r createL3_samples
    by blast
qed

section \<open>Facts about the chain store\<close>

subsection \<open>Create and CreateImm\<close>

lemma create_settled:
  assumes "create name attributes nfc = (None, nfc1)"
  shows "create name attributes nfc1 = (None, nfc1) \<and> chains nfc1 name \<noteq> None"
  using assms
  by (auto simp: create_def isEqualChain_def AddChain_def did_def newRules_def ptr_eq_def
        Validate_def Let_def split: option.splits if_splits)



subsection \<open>The retry loop of DeleteImm\<close>

text \<open>
  A round that ends in a busy \<^verbatim>\<open>Flush\<close> and a tick leaves its three effects and
  goes round again; \<open>n\<close> such rounds leave \<open>n\<close> times those effects. The last round
  is decided by its \<^verbatim>\<open>Flush\<close> and, when that is busy, by its \<^verbatim>\<open>select\<close>.
\<close>

lemma count_effect_trace_append:
  "count_effect e (nfc\<lparr>trace := trace nfc @ xs\<rparr>) = count_effect e nfc + length (filter (\<lambda>x. x = e) xs)"
  by (simp add: count_effect_def)

lemma DeleteImm_loop_retry:
  assumes "flushResult ev (count_effect CallFlush nfc) = Some e" and "is_EBUSY e"
    and "selectResult ev (count_effect Select nfc) = TickerC"
  shows "DeleteImm_loop (Suc fuel) ev ch name nfc
           = DeleteImm_loop fuel ev ch name (nfc\<lparr>trace := trace nfc @ retry_round ch\<rparr>)"
  using assms
  by (simp add: DelChain_def Flush_def select_timeout_or_ticker_def count_effect_def
        did_def retry_round_def Let_def)

lemma busy_rounds_Suc:
  "busy_rounds ev nfc (Suc n) \<longleftrightarrow>
     (case flushResult ev (count_effect CallFlush nfc) of None \<Rightarrow> False | Some e \<Rightarrow> is_EBUSY e)
     \<and> selectResult ev (count_effect Select nfc) = TickerC
     \<and> busy_rounds ev (nfc\<lparr>trace := trace nfc @ retry_round ch\<rparr>) n"
proof -
  have c: "count_effect CallFlush (nfc\<lparr>trace := trace nfc @ retry_round ch\<rparr>)
             = Suc (count_effect CallFlush nfc)"
    "count_effect Select (nfc\<lparr>trace := trace nfc @ retry_round ch\<rparr>)
             = Suc (count_effect Select nfc)"
    by (simp_all add: count_effect_trace_append retry_round_def)
  have "(\<forall>i<Suc n. P i) \<longleftrightarrow> P 0 \<and> (\<forall>i<n. P (Suc i))" for P
    by (auto simp: less_Suc_eq_0_disj)
  then show ?thesis
    unfolding busy_rounds_def c by simp
qed

lemma DeleteImm_loop_retries:
  "busy_rounds ev nfc n \<Longrightarrow>
   DeleteImm_loop (n + fuel) ev ch name nfc
     = DeleteImm_loop fuel ev ch name
         (nfc\<lparr>trace := trace nfc @ concat (replicate n (retry_round ch))\<rparr>)"
proof (induction n arbitrary: nfc)
  case 0
  then show ?case by simp
next
  case (Suc n)
  from Suc.prems obtain e where
    e: "flushResult ev (count_effect CallFlush nfc) = Some e" "is_EBUSY e"
    and s: "selectResult ev (count_effect Select nfc) = TickerC"
    and rest: "busy_rounds ev (nfc\<lparr>trace := trace nfc @ retry_round ch\<rparr>) n"
    unfolding busy_rounds_Suc [where ch = ch] by (auto split: option.splits)
  have "DeleteImm_loop (Suc n + fuel) ev ch name nfc
          = DeleteImm_loop (n + fuel) ev ch name (nfc\<lparr>trace := trace nfc @ retry_round ch\<rparr>)"
    using DeleteImm_loop_retry [OF e s] by simp
  also have "\<dots> = DeleteImm_loop fuel ev ch name
         (nfc\<lparr>trace := trace nfc @ retry_round ch @ concat (replicate n (retry_round ch))\<rparr>)"
    using Suc.IH [OF rest] by simp
  finally show ?case by simp
qed

lemma DeleteImm_loop_last:
  "DeleteImm_loop (Suc fuel) ev ch name nfc =
     (case flushResult ev (count_effect CallFlush nfc) of
        None \<Rightarrow> Some (None, nfc\<lparr>chains := (chains nfc)(name := None),
                              trace := trace nfc @ [CallDelChain (chain ch), CallFlush, TickerStop]\<rparr>)
      | Some e \<Rightarrow>
          if \<not> is_EBUSY e
            then Some (Some e, nfc\<lparr>trace := trace nfc @ [CallDelChain (chain ch), CallFlush, TickerStop]\<rparr>)
          else (case selectResult ev (count_effect Select nfc) of
                  TimeoutC \<Rightarrow> Some (Some e, nfc\<lparr>trace := trace nfc
                                 @ [CallDelChain (chain ch), CallFlush, Select, TickerStop]\<rparr>)
                | TickerC \<Rightarrow> DeleteImm_loop fuel ev ch name
                                 (nfc\<lparr>trace := trace nfc @ retry_round ch\<rparr>)))"
  by (simp add: DelChain_def Flush_def select_timeout_or_ticker_def count_effect_def
        did_def retry_round_def Let_def split: option.splits select_case.splits)

declare DeleteImm_loop.simps(2) [simp del]


lemma store_1_eq:
  "store_1 = \<lparr>table = table_1, chains = [''chain-1'' \<mapsto> nfChain_1],
              trace = [CallAddChain chain_1]\<rparr>"
  by (simp add: store_1_def Create_def create_def store_0_def attrs_drop_def Validate_def
        AddChain_def did_def newRules_def nfChain_1_def chain_1_def)

lemma store_1_chain [simp]: "chains store_1 ''chain-1'' = Some nfChain_1"
  by (simp add: store_1_eq)

lemma store_1_counts [simp]:
  "count_effect CallFlush store_1 = 0" "count_effect Select store_1 = 0"
  by (simp_all add: store_1_eq count_effect_def)

lemma DeleteImm_start:
  "chains nfc name = Some ch \<Longrightarrow>
   DeleteImm fuel ev name nfc
     = DeleteImm_loop fuel ev ch name (nfc\<lparr>trace := trace nfc @ delete_timers\<rparr>)"
  by (simp add: DeleteImm_def did_def delete_timers_def)

lemma busy_rounds_timers:
  "busy_rounds ev (nfc\<lparr>trace := trace nfc @ delete_timers\<rparr>) n = busy_rounds ev nfc n"
  by (simp add: busy_rounds_def count_effect_def delete_timers_def)

lemma count_after_rounds:
  "count_effect CallFlush
     (nfc\<lparr>trace := trace nfc @ delete_timers @ concat (replicate n (retry_round ch))\<rparr>)
     = count_effect CallFlush nfc + n"
  "count_effect Select
     (nfc\<lparr>trace := trace nfc @ delete_timers @ concat (replicate n (retry_round ch))\<rparr>)
     = count_effect Select nfc + n"
  by (induction n) (simp_all add: count_effect_def delete_timers_def retry_round_def)

text \<open>
  Claim C4. \<^verbatim>\<open>DeleteImm\<close> of a stored name starts a timer of
  \<^verbatim>\<open>ChainDeleteTimeout\<close> (60 seconds) and a ticker of a tenth of it (6 seconds). When
  the first \<open>n\<close> rounds each end in a busy \<^verbatim>\<open>Flush\<close> followed by a tick, the function
  issues exactly \<open>n + 1\<close> delete requests up to the end of round \<open>n + 1\<close>, one per
  round, and that round decides: a \<^verbatim>\<open>Flush\<close> that succeeds makes it return
  \<^verbatim>\<open>nil\<close> with the entry removed; a \<^verbatim>\<open>Flush\<close> that fails with an error other than
  busy makes it return that error at once; a busy \<^verbatim>\<open>Flush\<close> followed by the timer
  makes it return that busy error. In each case the function returns (more than \<open>n\<close>
  rounds allowed), so it does not loop once the timer is received.
\<close>

theorem DeleteImm_retries_only_while_busy:
  assumes "chains nfc name = Some ch" and "busy_rounds ev nfc n" and "n < fuel"
  shows "ChainDeleteTimeout = 60 * 1000000000 \<and> ChainDeleteTimeout div 10 = 6 * 1000000000
       \<and> (case flushResult ev (count_effect CallFlush nfc + n) of
            None \<Rightarrow>
              DeleteImm fuel ev name nfc
                = Some (None, nfc\<lparr>chains := (chains nfc)(name := None),
                                    trace := trace nfc @ delete_timers
                                      @ concat (replicate n (retry_round ch))
                                      @ [CallDelChain (chain ch), CallFlush, TickerStop]\<rparr>)
          | Some e \<Rightarrow>
              if \<not> is_EBUSY e then
                DeleteImm fuel ev name nfc
                  = Some (Some e, nfc\<lparr>trace := trace nfc @ delete_timers
                                      @ concat (replicate n (retry_round ch))
                                      @ [CallDelChain (chain ch), CallFlush, TickerStop]\<rparr>)
              else
                (selectResult ev (count_effect Select nfc + n) = TimeoutC \<longrightarrow>
                 DeleteImm fuel ev name nfc
                  = Some (Some e, nfc\<lparr>trace := trace nfc @ delete_timers
                                      @ concat (replicate n (retry_round ch))
                                      @ [CallDelChain (chain ch), CallFlush, Select, TickerStop]\<rparr>)))"
proof -
  obtain k where k: "fuel = n + Suc k"
    using assms(3) by (metis add_Suc_right less_iff_Suc_add)
  have "DeleteImm fuel ev name nfc
          = DeleteImm_loop (n + Suc k) ev ch name (nfc\<lparr>trace := trace nfc @ delete_timers\<rparr>)"
    using assms(1) k by (simp add: DeleteImm_start)
  also have "\<dots> = DeleteImm_loop (Suc k) ev ch name
      (nfc\<lparr>trace := trace nfc @ delete_timers @ concat (replicate n (retry_round ch))\<rparr>)"
    using DeleteImm_loop_retries [where nfc = "nfc\<lparr>trace := trace nfc @ delete_timers\<rparr>"
        and ev = ev and n = n and fuel = "Suc k" and ch = ch and name = name]
      assms(2)
    by (simp add: busy_rounds_timers)
  finally have run: "DeleteImm fuel ev name nfc = DeleteImm_loop (Suc k) ev ch name
      (nfc\<lparr>trace := trace nfc @ delete_timers @ concat (replicate n (retry_round ch))\<rparr>)" .
  have durations: "ChainDeleteTimeout = 60 * 1000000000" "ChainDeleteTimeout div 10 = 6 * 1000000000"
    by (simp_all add: ChainDeleteTimeout_def Second_def)
  show ?thesis
    unfolding run DeleteImm_loop_last count_after_rounds
    using durations by (simp split: option.splits)
qed

theorem DeleteImm_retries_only_while_busy_witness:
  "chains store_1 ''chain-1'' = Some nfChain_1 \<and> busy_rounds env_busy_twice store_1 2
   \<and> busy_rounds env_busy_until_timeout store_1 2 \<and> busy_rounds env_flush_fails store_1 0
   \<and> DeleteImm 5 env_busy_twice ''chain-1'' store_1
       = Some (None, store_1\<lparr>chains := (chains store_1)(''chain-1'' := None),
                 trace := trace store_1 @ delete_timers
                   @ concat (replicate 2 (retry_round nfChain_1))
                   @ [CallDelChain (chain nfChain_1), CallFlush, TickerStop]\<rparr>)
   \<and> DeleteImm 5 env_busy_until_timeout ''chain-1'' store_1
       = Some (Some EBUSY, store_1\<lparr>trace := trace store_1 @ delete_timers
                   @ concat (replicate 2 (retry_round nfChain_1))
                   @ [CallDelChain (chain nfChain_1), CallFlush, Select, TickerStop]\<rparr>)
   \<and> DeleteImm 5 env_flush_fails ''chain-1'' store_1
       = Some (Some EPERM, store_1\<lparr>trace := trace store_1 @ delete_timers
                   @ concat (replicate 0 (retry_round nfChain_1))
                   @ [CallDelChain (chain nfChain_1), CallFlush, TickerStop]\<rparr>)"
proof -
  have b: "busy_rounds env_busy_twice store_1 2" "busy_rounds env_busy_until_timeout store_1 2"
    "busy_rounds env_flush_fails store_1 0"
    by (simp_all add: busy_rounds_def env_busy_twice_def env_busy_until_timeout_def
          env_flush_fails_def env_quiet_def EBUSY_def is_EBUSY_def)
  have f: "flushResult env_busy_twice = (\<lambda>k. if k < 2 then Some EBUSY else None)"
    "flushResult env_busy_until_timeout = (\<lambda>k. Some EBUSY)"
    "selectResult env_busy_until_timeout = (\<lambda>k. if k < 2 then TickerC else TimeoutC)"
    "flushResult env_flush_fails = (\<lambda>k. Some EPERM)"
    "is_EBUSY EBUSY" "\<not> is_EBUSY EPERM"
    by (simp_all add: env_busy_twice_def env_busy_until_timeout_def env_flush_fails_def
          env_quiet_def EBUSY_def EPERM_def is_EBUSY_def)
  show ?thesis
    using DeleteImm_retries_only_while_busy [OF store_1_chain b(1), of 5]
      DeleteImm_retries_only_while_busy [OF store_1_chain b(2), of 5]
      DeleteImm_retries_only_while_busy [OF store_1_chain b(3), of 5]
    by (simp add: b f)
qed






subsection \<open>Sync and Exist\<close>

text \<open>One step of the loop of \<^verbatim>\<open>Sync\<close>, and what the loop keeps, adds and reaches.\<close>

lemma Sync_loop_Cons:
  "Sync_loop ev (c # cs) nfc =
     (if of_table (table nfc) c \<and> chains nfc (Name c) = None then
        (case rulesSyncResult ev (length (filter is_RulesSync (trace nfc))) of
           Some e \<Rightarrow> (Some e, sync_insert c nfc)
         | None \<Rightarrow> Sync_loop ev cs (sync_insert c nfc))
      else Sync_loop ev cs nfc)"
  by (auto simp: of_table_def synced_entry_def sync_insert_def RulesSync_def did_def Let_def
           split: option.splits)

declare Sync_loop.simps(2) [simp del]

lemma sync_insert_state [simp]:
  "table (sync_insert c nfc) = table nfc"
  "chains (sync_insert c nfc) = (chains nfc)(Name c \<mapsto> synced_entry (table nfc) c)"
  by (simp_all add: sync_insert_def)

lemma Sync_loop_table [simp]: "table (snd (Sync_loop ev cs nfc)) = table nfc"
  by (induction cs arbitrary: nfc) (auto simp: Sync_loop_Cons split: option.splits)

lemma Sync_loop_frame:
  "chains nfc n = Some x \<Longrightarrow> chains (snd (Sync_loop ev cs nfc)) n = Some x"
  by (induction cs arbitrary: nfc) (auto simp: Sync_loop_Cons split: option.splits)

lemma Sync_loop_complete:
  "fst (Sync_loop ev cs nfc) = None \<Longrightarrow> c \<in> set cs \<Longrightarrow> of_table (table nfc) c \<Longrightarrow>
   chains (snd (Sync_loop ev cs nfc)) (Name c) \<noteq> None"
proof (induction cs arbitrary: nfc)
  case Nil
  then show ?case by simp
next
  case (Cons d cs)
  show ?case
  proof (cases "of_table (table nfc) d \<and> chains nfc (Name d) = None")
    case False
    then have step: "Sync_loop ev (d # cs) nfc = Sync_loop ev cs nfc"
      by (auto simp: Sync_loop_Cons)
    show ?thesis
    proof (cases "c = d")
      case True
      with False Cons.prems obtain x where "chains nfc (Name c) = Some x" by auto
      from Sync_loop_frame [OF this] show ?thesis by simp
    next
      case False
      then have "c \<in> set cs" using Cons.prems by simp
      then show ?thesis using Cons.IH [of nfc] Cons.prems step by simp
    qed
  next
    case True
    then have step: "Sync_loop ev (d # cs) nfc = Sync_loop ev cs (sync_insert d nfc)"
      using Cons.prems(1) by (auto simp: Sync_loop_Cons split: option.splits)
    show ?thesis
    proof (cases "Name c = Name d")
      case True
      then have "chains (sync_insert d nfc) (Name c) = Some (synced_entry (table nfc) d)"
        by simp
      from Sync_loop_frame [OF this] show ?thesis using step by simp
    next
      case False
      then have "c \<in> set cs" using Cons.prems by auto
      then show ?thesis using Cons.IH [of "sync_insert d nfc"] Cons.prems step by simp
    qed
  qed
qed

lemma Sync_loop_new:
  "chains nfc n = None \<Longrightarrow> chains (snd (Sync_loop ev cs nfc)) n = Some x \<Longrightarrow>
   \<exists>c \<in> set cs. of_table (table nfc) c \<and> Name c = n \<and> x = synced_entry (table nfc) c"
proof (induction cs arbitrary: nfc)
  case Nil
  then show ?case by simp
next
  case (Cons d cs)
  show ?case
  proof (cases "of_table (table nfc) d \<and> chains nfc (Name d) = None")
    case False
    then have step: "Sync_loop ev (d # cs) nfc = Sync_loop ev cs nfc"
      by (auto simp: Sync_loop_Cons)
    then show ?thesis using Cons.IH [of nfc] Cons.prems by auto
  next
    case True
    then have step: "snd (Sync_loop ev (d # cs) nfc) = sync_insert d nfc
                \<or> snd (Sync_loop ev (d # cs) nfc) = snd (Sync_loop ev cs (sync_insert d nfc))"
      by (auto simp: Sync_loop_Cons split: option.splits)
    show ?thesis
    proof (cases "n = Name d")
      case n: True
      have "chains (sync_insert d nfc) n = Some (synced_entry (table nfc) d)"
        using n by simp
      from Sync_loop_frame [OF this]
      have "chains (snd (Sync_loop ev cs (sync_insert d nfc))) n = Some (synced_entry (table nfc) d)" .
      with step Cons.prems(2) n have "x = synced_entry (table nfc) d" by auto
      then show ?thesis using n True by auto
    next
      case False
      then have n2: "chains (sync_insert d nfc) n = None" using Cons.prems(1) by simp
      from step show ?thesis
      proof
        assume "snd (Sync_loop ev (d # cs) nfc) = sync_insert d nfc"
        then show ?thesis using Cons.prems(2) n2 by simp
      next
        assume "snd (Sync_loop ev (d # cs) nfc) = snd (Sync_loop ev cs (sync_insert d nfc))"
        then have "chains (snd (Sync_loop ev cs (sync_insert d nfc))) n = Some x"
          using Cons.prems(2) by simp
        from Cons.IH [OF n2 this] show ?thesis by auto
      qed
    qed
  qed
qed

lemma Sync_cases:
  "Sync ev nfc =
     (case listChainsResult ev (count_effect CallListChains nfc) of
        Inl err \<Rightarrow> (Some err, did CallListChains nfc)
      | Inr cs \<Rightarrow> Sync_loop ev cs (did CallListChains nfc))"
  by (simp add: Sync_def ListChains_def split: sum.splits)

lemma did_state [simp]: "chains (did e nfc) = chains nfc" "table (did e nfc) = table nfc"
  by (simp_all add: did_def)

lemma Exist_loop_Cons:
  "Exist_loop ev name (c # cs) nfc =
     (if Name c = name \<and> of_table (table nfc) c
      then (fst (Sync ev nfc) = None, snd (Sync ev nfc))
      else Exist_loop ev name cs nfc)"
  by (auto simp: of_table_def split: prod.splits option.splits)

declare Exist_loop.simps(2) [simp del]

lemma Exist_loop_found:
  "\<exists>c \<in> set cs. Name c = name \<and> of_table (table nfc) c \<Longrightarrow>
   Exist_loop ev name cs nfc = (fst (Sync ev nfc) = None, snd (Sync ev nfc))"
  by (induction cs) (auto simp: Exist_loop_Cons)

lemma Exist_loop_absent:
  "\<not> (\<exists>c \<in> set cs. Name c = name \<and> of_table (table nfc) c) \<Longrightarrow>
   Exist_loop ev name cs nfc = (False, nfc)"
  by (induction cs) (auto simp: Exist_loop_Cons)

lemma Exist_cases:
  "chains nfc name = None \<Longrightarrow>
   Exist ev name nfc =
     (case listChainsResult ev (count_effect CallListChains nfc) of
        Inl err \<Rightarrow> (False, did CallListChains nfc)
      | Inr cs \<Rightarrow> Exist_loop ev name cs (did CallListChains nfc))"
  by (simp add: Exist_def ListChains_def split: sum.splits)

text \<open>
  Claim C10. \<^verbatim>\<open>Exist\<close> of a stored name returns true and leaves the store and the
  trace as they were: it calls nothing. For a name that is not stored, \<^verbatim>\<open>Exist\<close>
  returns false when \<^verbatim>\<open>ListChains\<close> fails; when the listing holds a chain of that
  name and of the store's table, it returns whether the \<^verbatim>\<open>Sync\<close> it runs succeeds,
  so false when that fails; and it returns false when the listing holds no such chain.
  The three false answers are the same value.
\<close>

theorem Exist_hides_failures:
  "(chains nfc name \<noteq> None \<longrightarrow> Exist ev name nfc = (True, nfc))
   \<and> (chains nfc name = None \<longrightarrow>
        (case listChainsResult ev (count_effect CallListChains nfc) of
           Inl err \<Rightarrow> Exist ev name nfc = (False, did CallListChains nfc)
         | Inr cs \<Rightarrow>
             if \<exists>c \<in> set cs. Name c = name \<and> of_table (table nfc) c then
               Exist ev name nfc = (fst (Sync ev (did CallListChains nfc)) = None,
                                    snd (Sync ev (did CallListChains nfc)))
             else Exist ev name nfc = (False, did CallListChains nfc)))"
proof (intro conjI impI)
  assume "chains nfc name \<noteq> None"
  then show "Exist ev name nfc = (True, nfc)"
    by (auto simp: Exist_def)
next
  assume a: "chains nfc name = None"
  show "case listChainsResult ev (count_effect CallListChains nfc) of
           Inl err \<Rightarrow> Exist ev name nfc = (False, did CallListChains nfc)
         | Inr cs \<Rightarrow>
             if \<exists>c \<in> set cs. Name c = name \<and> of_table (table nfc) c then
               Exist ev name nfc = (fst (Sync ev (did CallListChains nfc)) = None,
                                    snd (Sync ev (did CallListChains nfc)))
             else Exist ev name nfc = (False, did CallListChains nfc)"
  proof (cases "listChainsResult ev (count_effect CallListChains nfc)")
    case (Inl err)
    then show ?thesis using a by (simp add: Exist_cases)
  next
    case (Inr cs)
    show ?thesis
    proof (cases "\<exists>c \<in> set cs. Name c = name \<and> of_table (table nfc) c")
      case True
      then have "\<exists>c \<in> set cs. Name c = name \<and> of_table (table (did CallListChains nfc)) c"
        by simp
      from Exist_loop_found [OF this] show ?thesis
        using a Inr True by (simp add: Exist_cases del: bex_simps)
    next
      case False
      then have "\<not> (\<exists>c \<in> set cs. Name c = name \<and> of_table (table (did CallListChains nfc)) c)"
        by simp
      from Exist_loop_absent [OF this] show ?thesis
        using a Inr False by (simp add: Exist_cases del: bex_simps)
    qed
  qed
qed

lemma Sync_keeps_and_adds:
  "table (snd (Sync ev nfc)) = table nfc
   \<and> (\<forall>n x. chains nfc n = Some x \<longrightarrow> chains (snd (Sync ev nfc)) n = Some x)
   \<and> (fst (Sync ev nfc) = None \<longrightarrow>
        (\<exists>cs. listChainsResult ev (count_effect CallListChains nfc) = Inr cs
           \<and> (\<forall>c \<in> set cs. of_table (table nfc) c \<longrightarrow>
                 chains (snd (Sync ev nfc)) (Name c) \<noteq> None)))
   \<and> (\<forall>n x. chains nfc n = None \<and> chains (snd (Sync ev nfc)) n = Some x \<longrightarrow>
        (\<exists>cs. listChainsResult ev (count_effect CallListChains nfc) = Inr cs
           \<and> (\<exists>c \<in> set cs. of_table (table nfc) c \<and> Name c = n \<and> chain x = Some c)))"
proof (cases "listChainsResult ev (count_effect CallListChains nfc)")
  case (Inl err)
  then show ?thesis by (auto simp: Sync_cases)
next
  case (Inr cs)
  then have s: "Sync ev nfc = Sync_loop ev cs (did CallListChains nfc)"
    by (simp add: Sync_cases)
  have frame: "chains (snd (Sync ev nfc)) n = Some x" if "chains nfc n = Some x" for n x
    unfolding s using that by (intro Sync_loop_frame) simp
  have complete: "chains (snd (Sync ev nfc)) (Name c) \<noteq> None"
    if "fst (Sync ev nfc) = None" "c \<in> set cs" "of_table (table nfc) c" for c
    unfolding s using that Sync_loop_complete [of ev cs "did CallListChains nfc" c]
    by (simp add: s)
  have new: "\<exists>c \<in> set cs. of_table (table nfc) c \<and> Name c = n \<and> chain x = Some c"
    if "chains nfc n = None" "chains (snd (Sync ev nfc)) n = Some x" for n x
    using that Sync_loop_new [of "did CallListChains nfc" n ev cs x]
    by (auto simp: s synced_entry_def)
  show ?thesis
    using Inr frame complete new by (simp add: s)
qed

lemma kernel_built_not_prerouting:
  "kernel_built c \<Longrightarrow> \<not> ptr_eq (Hooknum c) ChainHookPrerouting"
  by (auto simp: kernel_built_def ptr_eq_def ChainHookPrerouting_def
           split: option.splits addr.splits)

lemma Sync_loop_append:
  "Sync_loop ev (pre @ rest) nfc =
     (case Sync_loop ev pre nfc of
        (Some e, nfc1) \<Rightarrow> (Some e, nfc1)
      | (None, nfc1) \<Rightarrow> Sync_loop ev rest nfc1)"
  by (induction pre arbitrary: nfc) (auto simp: Sync_loop_Cons split: option.splits prod.splits)

lemma Sync_loop_quiet:
  "\<forall>k. rulesSyncResult ev k = None \<Longrightarrow> fst (Sync_loop ev cs nfc) = None"
  by (induction cs arbitrary: nfc) (auto simp: Sync_loop_Cons)

lemma Sync_loop_stops:
  assumes "Sync_loop ev pre nfc = (None, nfc1)" and "of_table (table nfc) c"
    and "chains nfc1 (Name c) = None"
    and "rulesSyncResult ev (length (filter is_RulesSync (trace nfc1))) = Some e"
  shows "Sync_loop ev (pre @ c # post) nfc = (Some e, sync_insert c nfc1)"
proof -
  have "table nfc1 = table nfc"
    using Sync_loop_table [of ev pre nfc] assms(1) by simp
  then show ?thesis
    using assms by (simp add: Sync_loop_append Sync_loop_Cons)
qed

text \<open>
  Claim C6, as the code has it. Whatever \<^verbatim>\<open>Sync\<close> returns, every entry of the store
  is still there afterwards, unchanged, and the table is the same. When \<^verbatim>\<open>Sync\<close>
  returns \<^verbatim>\<open>nil\<close>, every listed chain of the store's table has an entry. Every
  entry that is new was built for a listed chain of that name and of the store's table.
  When \<^verbatim>\<open>ListChains\<close> fails, \<^verbatim>\<open>Sync\<close> returns its error and adds nothing. When
  the loop has passed a part of the listing without an error and the rule store of the
  next chain it adds fails to sync, \<^verbatim>\<open>Sync\<close> returns that error with that chain
  added, and no chain listed after it is added. When no rule store fails, \<^verbatim>\<open>Sync\<close>
  returns \<^verbatim>\<open>nil\<close>.
\<close>

theorem Sync_only_adds:
  "table (snd (Sync ev nfc)) = table nfc
   \<and> (\<forall>n x. chains nfc n = Some x \<longrightarrow> chains (snd (Sync ev nfc)) n = Some x)
   \<and> (fst (Sync ev nfc) = None \<longrightarrow>
        (\<exists>cs. listChainsResult ev (count_effect CallListChains nfc) = Inr cs
           \<and> (\<forall>c \<in> set cs. of_table (table nfc) c \<longrightarrow>
                 chains (snd (Sync ev nfc)) (Name c) \<noteq> None)))
   \<and> (\<forall>n x. chains nfc n = None \<and> chains (snd (Sync ev nfc)) n = Some x \<longrightarrow>
        (\<exists>cs. listChainsResult ev (count_effect CallListChains nfc) = Inr cs
           \<and> (\<exists>c \<in> set cs. of_table (table nfc) c \<and> Name c = n \<and> chain x = Some c)))
   \<and> (\<forall>err. listChainsResult ev (count_effect CallListChains nfc) = Inl err \<longrightarrow>
        Sync ev nfc = (Some err, did CallListChains nfc))
   \<and> (\<forall>pre c post nfc1 e.
        listChainsResult ev (count_effect CallListChains nfc) = Inr (pre @ c # post)
        \<and> Sync_loop ev pre (did CallListChains nfc) = (None, nfc1)
        \<and> of_table (table nfc) c \<and> chains nfc1 (Name c) = None
        \<and> rulesSyncResult ev (length (filter is_RulesSync (trace nfc1))) = Some e \<longrightarrow>
          Sync ev nfc = (Some e, sync_insert c nfc1)
        \<and> (\<forall>d \<in> set post. chains nfc1 (Name d) = None \<and> Name d \<noteq> Name c \<longrightarrow>
               chains (snd (Sync ev nfc)) (Name d) = None))
   \<and> (\<forall>cs. listChainsResult ev (count_effect CallListChains nfc) = Inr cs
           \<and> (\<forall>k. rulesSyncResult ev k = None) \<longrightarrow> fst (Sync ev nfc) = None)"
proof -
  have stops: "Sync ev nfc = (Some e, sync_insert c nfc1)
        \<and> (\<forall>d \<in> set post. chains nfc1 (Name d) = None \<and> Name d \<noteq> Name c \<longrightarrow>
               chains (snd (Sync ev nfc)) (Name d) = None)"
    if h: "listChainsResult ev (count_effect CallListChains nfc) = Inr (pre @ c # post)
        \<and> Sync_loop ev pre (did CallListChains nfc) = (None, nfc1)
        \<and> of_table (table nfc) c \<and> chains nfc1 (Name c) = None
        \<and> rulesSyncResult ev (length (filter is_RulesSync (trace nfc1))) = Some e"
    for pre c post nfc1 e
  proof -
    have "Sync ev nfc = Sync_loop ev (pre @ c # post) (did CallListChains nfc)"
      using h by (simp add: Sync_cases)
    also have "\<dots> = (Some e, sync_insert c nfc1)"
      using h by (intro Sync_loop_stops) simp_all
    finally show ?thesis by simp
  qed
  have quiet: "fst (Sync ev nfc) = None"
    if "listChainsResult ev (count_effect CallListChains nfc) = Inr cs
           \<and> (\<forall>k. rulesSyncResult ev k = None)" for cs
    using that by (simp add: Sync_cases Sync_loop_quiet)
  have failed: "Sync ev nfc = (Some err, did CallListChains nfc)"
    if "listChainsResult ev (count_effect CallListChains nfc) = Inl err" for err
    using that by (simp add: Sync_cases)
  show ?thesis
    using Sync_keeps_and_adds [of ev nfc] stops quiet failed by blast
qed

lemma distinct_names_same:
  assumes "distinct (map Name (filter (of_table t) cs))"
    and "c \<in> set cs" "of_table t c" "c' \<in> set cs" "of_table t c'" "Name c' = Name c"
  shows "c' = c"
proof -
  have "inj_on Name (set (filter (of_table t) cs))"
    using assms(1) by (simp add: distinct_map)
  moreover have "c \<in> set (filter (of_table t) cs)" "c' \<in> set (filter (of_table t) cs)"
    using assms by simp_all
  ultimately show ?thesis using assms(6) by (auto dest: inj_onD)
qed

text \<open>
  Claim C7, as the code has it. Take a listing of chains as the kernel reports them.
  Every entry \<^verbatim>\<open>Sync\<close> adds wraps a listed chain of that name and of the store's
  table, and is tagged base exactly when that chain carries a chain type, whatever its
  hook value; so a chain without a type is tagged regular. When \<^verbatim>\<open>Sync\<close> returns
  \<^verbatim>\<open>nil\<close>, every listed chain of the store's table whose name was not stored has
  such an entry, which wraps that very chain when no two listed chains of the table
  share a name. \<^verbatim>\<open>Sync\<close> returns \<^verbatim>\<open>nil\<close> when no rule store fails.
\<close>

theorem Sync_infers_base_tag:
  assumes "listChainsResult ev (count_effect CallListChains nfc) = Inr cs"
    and "\<forall>c \<in> set cs. kernel_built c"
  shows "(\<forall>n x. chains nfc n = None \<and> chains (snd (Sync ev nfc)) n = Some x \<longrightarrow>
            (\<exists>c \<in> set cs. of_table (table nfc) c \<and> Name c = n \<and> chain x = Some c
               \<and> (baseChain x \<longleftrightarrow> Type c \<noteq> [])))
       \<and> (fst (Sync ev nfc) = None \<longrightarrow>
            (\<forall>c \<in> set cs. of_table (table nfc) c \<and> chains nfc (Name c) = None \<longrightarrow>
               (\<exists>x c'. chains (snd (Sync ev nfc)) (Name c) = Some x
                  \<and> c' \<in> set cs \<and> of_table (table nfc) c' \<and> Name c' = Name c
                  \<and> chain x = Some c' \<and> (baseChain x \<longleftrightarrow> Type c' \<noteq> [])
                  \<and> (distinct (map Name (filter (of_table (table nfc)) cs)) \<longrightarrow> c' = c))))
       \<and> ((\<forall>k. rulesSyncResult ev k = None) \<longrightarrow> fst (Sync ev nfc) = None)"
proof -
  have s: "Sync ev nfc = Sync_loop ev cs (did CallListChains nfc)"
    using assms(1) by (simp add: Sync_cases)
  have new: "\<exists>c \<in> set cs. of_table (table nfc) c \<and> Name c = n \<and> chain x = Some c
               \<and> (baseChain x \<longleftrightarrow> Type c \<noteq> [])"
    if a: "chains nfc n = None \<and> chains (snd (Sync ev nfc)) n = Some x" for n x
  proof -
    from a obtain c where c: "c \<in> set cs" "of_table (table nfc) c" "Name c = n"
      "x = synced_entry (table nfc) c"
      using Sync_loop_new [of "did CallListChains nfc" n ev cs x] by (auto simp: s)
    have "\<not> ptr_eq (Hooknum c) ChainHookPrerouting"
      using assms(2) c(1) by (simp add: kernel_built_not_prerouting)
    then show ?thesis using c by (auto simp: synced_entry_def)
  qed
  have all: "\<exists>x c'. chains (snd (Sync ev nfc)) (Name c) = Some x
                  \<and> c' \<in> set cs \<and> of_table (table nfc) c' \<and> Name c' = Name c
                  \<and> chain x = Some c' \<and> (baseChain x \<longleftrightarrow> Type c' \<noteq> [])
                  \<and> (distinct (map Name (filter (of_table (table nfc)) cs)) \<longrightarrow> c' = c)"
    if ok: "fst (Sync ev nfc) = None" and c: "c \<in> set cs"
      "of_table (table nfc) c \<and> chains nfc (Name c) = None" for c
  proof -
    have "chains (snd (Sync ev nfc)) (Name c) \<noteq> None"
      using Sync_loop_complete [of ev cs "did CallListChains nfc" c] ok c by (simp add: s)
    then obtain x where x: "chains (snd (Sync ev nfc)) (Name c) = Some x" by auto
    with new [of "Name c" x] c obtain c' where c': "c' \<in> set cs" "of_table (table nfc) c'"
      "Name c' = Name c" "chain x = Some c'" "baseChain x \<longleftrightarrow> Type c' \<noteq> []"
      by auto
    have "distinct (map Name (filter (of_table (table nfc)) cs)) \<longrightarrow> c' = c"
      using distinct_names_same [of "table nfc" cs c c'] c c' by auto
    then show ?thesis using x c' by blast
  qed
  have quiet: "(\<forall>k. rulesSyncResult ev k = None) \<longrightarrow> fst (Sync ev nfc) = None"
    by (simp add: s Sync_loop_quiet)
  show ?thesis using new all quiet by blast
qed

text \<open>
  Claim C9, as the code has it. When \<^verbatim>\<open>create\<close> fails, \<^verbatim>\<open>CreateImm\<close> returns its
  error and the store is as it was. When \<^verbatim>\<open>create\<close> succeeds, \<^verbatim>\<open>CreateImm\<close>
  returns what \<^verbatim>\<open>Flush\<close> returns, and the store is the one \<^verbatim>\<open>create\<close> left with
  the \<^verbatim>\<open>Flush\<close> added to its trace: the entry of that name is stored, whether the
  \<^verbatim>\<open>Flush\<close> failed or not.
\<close>

theorem CreateImm_keeps_entry_on_flush_error:
  "(\<forall>err. fst (create name attributes nfc) = Some err \<longrightarrow>
       CreateImm ev name attributes nfc = (Some err, nfc))
   \<and> (fst (create name attributes nfc) = None \<longrightarrow>
        CreateImm ev name attributes nfc
          = (flushResult ev (count_effect CallFlush nfc),
             did CallFlush (snd (create name attributes nfc)))
      \<and> chains (snd (CreateImm ev name attributes nfc)) name \<noteq> None)"
proof (intro conjI allI impI)
  fix err
  assume "fst (create name attributes nfc) = Some err"
  then show "CreateImm ev name attributes nfc = (Some err, nfc)"
    by (auto simp: CreateImm_def create_def Let_def AddChain_def
             split: option.splits if_splits prod.splits)
next
  assume ok: "fst (create name attributes nfc) = None"
  then obtain nfc1 where c: "create name attributes nfc = (None, nfc1)"
    by (cases "create name attributes nfc") auto
  have n: "count_effect CallFlush nfc1 = count_effect CallFlush nfc"
    using c
    by (auto simp: create_def Let_def AddChain_def did_def count_effect_def
             split: option.splits if_splits)
  show "CreateImm ev name attributes nfc
          = (flushResult ev (count_effect CallFlush nfc),
             did CallFlush (snd (create name attributes nfc)))"
    using c n by (simp add: CreateImm_def Flush_def split: option.splits)
  then show "chains (snd (CreateImm ev name attributes nfc)) name \<noteq> None"
    using create_settled [OF c] c by simp
qed


subsection \<open>Sample runs\<close>

lemmas sample_defs =
  env_quiet_def env_kernel_def env_rules_sync_fails_def env_list_fails_def
  env_flush_fails_def
  kchain_1_def kchain_2_def kchain_3_def table_1_def synced_def
  EPERM_def EBUSY_def

lemmas sync_eval =
  Sync_cases Sync_loop_Cons count_effect_def did_def of_table_def synced_entry_def
  sync_insert_def newRules_def ptr_eq_def ChainHookPrerouting_def is_RulesSync_def

lemma store_1_fields:
  "chains store_1 = [''chain-1'' \<mapsto> nfChain_1]" "table store_1 = table_1"
  "trace store_1 = [CallAddChain chain_1]"
  by (simp_all add: store_1_eq)

lemma Sync_kernel_store_1:
  "Sync env_kernel store_1 =
     (None, \<lparr>table = table_1,
             chains = [''chain-1'' \<mapsto> nfChain_1,
                       ''chain-2'' \<mapsto> synced table_1 True kchain_2,
                       ''chain-3'' \<mapsto> synced table_1 False kchain_3],
             trace = [CallAddChain chain_1, CallListChains,
                      CallRulesSync ''chain-2'', CallRulesSync ''chain-3'']\<rparr>)"
  by (simp add: store_1_eq sync_eval sample_defs)

lemma Sync_rules_sync_fails_store_1:
  "Sync env_rules_sync_fails store_1 =
     (Some EPERM, \<lparr>table = table_1,
             chains = [''chain-1'' \<mapsto> nfChain_1,
                       ''chain-2'' \<mapsto> synced table_1 True kchain_2],
             trace = [CallAddChain chain_1, CallListChains, CallRulesSync ''chain-2'']\<rparr>)"
  by (simp add: store_1_eq sync_eval sample_defs)

lemma kernel_built_samples:
  "kernel_built kchain_1" "kernel_built kchain_2" "kernel_built kchain_3"
  by (simp_all add: kernel_built_def kchain_1_def kchain_2_def kchain_3_def)

lemma listing_samples:
  "listChainsResult env_kernel k = Inr [kchain_1, kchain_2, kchain_3]"
  "listChainsResult env_rules_sync_fails k = Inr [kchain_1, kchain_2, kchain_3]"
  "rulesSyncResult env_rules_sync_fails k = Some EPERM"
  "rulesSyncResult env_kernel k = None"
  by (simp_all add: env_kernel_def env_rules_sync_fails_def env_quiet_def)

lemma Sync_rules_sync_fails_store_0:
  "Sync env_rules_sync_fails store_0 =
     (Some EPERM, \<lparr>table = table_1,
             chains = [''chain-1'' \<mapsto> synced table_1 True kchain_1],
             trace = [CallListChains, CallRulesSync ''chain-1'']\<rparr>)"
  by (simp add: store_0_def sync_eval sample_defs)

lemma Sync_loop_pre_store_1:
  "Sync_loop env_rules_sync_fails [kchain_1] (did CallListChains store_1)
     = (None, did CallListChains store_1)"
  by (simp add: Sync_loop_Cons store_1_fields kchain_1_def)

text \<open>
  The store holding \<open>chain-1\<close> against a listing of \<open>chain-1\<close>, \<open>chain-2\<close> and
  \<open>chain-3\<close>: the first is kept as it was, the other two are added. When the rule
  store of \<open>chain-2\<close> fails, \<^verbatim>\<open>Sync\<close> returns with \<open>chain-2\<close> added and
  \<open>chain-3\<close> not; when the listing fails, with nothing added.
\<close>

theorem Sync_only_adds_witness:
  "fst (Sync env_kernel store_1) = None
   \<and> chains store_1 ''chain-1'' = Some nfChain_1
   \<and> chains (snd (Sync env_kernel store_1)) ''chain-1'' = Some nfChain_1
   \<and> chains (snd (Sync env_kernel store_1)) ''chain-2'' = Some (synced table_1 True kchain_2)
   \<and> chains (snd (Sync env_kernel store_1)) ''chain-3'' = Some (synced table_1 False kchain_3)
   \<and> table (snd (Sync env_kernel store_1)) = table store_1
   \<and> listChainsResult env_rules_sync_fails (count_effect CallListChains store_1)
       = Inr ([kchain_1] @ kchain_2 # [kchain_3])
   \<and> Sync_loop env_rules_sync_fails [kchain_1] (did CallListChains store_1)
       = (None, did CallListChains store_1)
   \<and> Sync env_rules_sync_fails store_1
       = (Some EPERM, sync_insert kchain_2 (did CallListChains store_1))
   \<and> chains (snd (Sync env_rules_sync_fails store_1)) (Name kchain_3) = None
   \<and> Sync env_list_fails store_1 = (Some EPERM, did CallListChains store_1)"
proof -
  have l: "listChainsResult env_rules_sync_fails (count_effect CallListChains store_1)
       = Inr ([kchain_1] @ kchain_2 # [kchain_3])"
    by (simp add: listing_samples)
  have c: "of_table (table store_1) kchain_2"
    "chains (did CallListChains store_1) (Name kchain_2) = None"
    "rulesSyncResult env_rules_sync_fails
       (length (filter is_RulesSync (trace (did CallListChains store_1)))) = Some EPERM"
    "kchain_3 \<in> set [kchain_3]" "chains (did CallListChains store_1) (Name kchain_3) = None"
    "Name kchain_3 \<noteq> Name kchain_2"
    "listChainsResult env_list_fails (count_effect CallListChains store_1) = Inl EPERM"
    by (simp_all add: store_1_fields of_table_def kchain_2_def kchain_3_def table_1_def
          listing_samples env_list_fails_def env_quiet_def)
  note t = Sync_only_adds [of env_rules_sync_fails store_1]
  from t l Sync_loop_pre_store_1 c
  have stop: "Sync env_rules_sync_fails store_1
       = (Some EPERM, sync_insert kchain_2 (did CallListChains store_1))
     \<and> (\<forall>d \<in> set [kchain_3]. chains (did CallListChains store_1) (Name d) = None
            \<and> Name d \<noteq> Name kchain_2 \<longrightarrow>
            chains (snd (Sync env_rules_sync_fails store_1)) (Name d) = None)"
    by blast
  then have absent: "chains (snd (Sync env_rules_sync_fails store_1)) (Name kchain_3) = None"
    using c by simp
  from Sync_only_adds [of env_list_fails store_1] c(7)
  have lf: "Sync env_list_fails store_1 = (Some EPERM, did CallListChains store_1)"
    by blast
  have k: "fst (Sync env_kernel store_1) = None
   \<and> chains store_1 ''chain-1'' = Some nfChain_1
   \<and> chains (snd (Sync env_kernel store_1)) ''chain-1'' = Some nfChain_1
   \<and> chains (snd (Sync env_kernel store_1)) ''chain-2'' = Some (synced table_1 True kchain_2)
   \<and> chains (snd (Sync env_kernel store_1)) ''chain-3'' = Some (synced table_1 False kchain_3)
   \<and> table (snd (Sync env_kernel store_1)) = table store_1"
    using Sync_only_adds [of env_kernel store_1]
    by (simp add: Sync_kernel_store_1 store_1_fields)
  show ?thesis using k l Sync_loop_pre_store_1 stop absent lf by blast
qed

text \<open>
  The claim C6 as first stated had \<^verbatim>\<open>Sync\<close> add an entry for every listed chain.
  When the rule store of the first added chain fails to sync, \<^verbatim>\<open>Sync\<close> returns
  there and the chains after it are not added.
\<close>

theorem Sync_stops_at_rule_sync_error_counterexample:
  "listChainsResult env_rules_sync_fails (count_effect CallListChains store_1)
     = Inr [kchain_1, kchain_2, kchain_3]
   \<and> of_table (table store_1) kchain_3 \<and> chains store_1 (Name kchain_3) = None
   \<and> fst (Sync env_rules_sync_fails store_1) = Some EPERM
   \<and> chains (snd (Sync env_rules_sync_fails store_1)) (Name kchain_3) = None"
proof -
  have "listChainsResult env_rules_sync_fails (count_effect CallListChains store_1)
     = Inr [kchain_1, kchain_2, kchain_3]"
    by (simp add: env_rules_sync_fails_def env_kernel_def env_quiet_def)
  moreover have "of_table (table store_1) kchain_3" "chains store_1 (Name kchain_3) = None"
    by (simp_all add: store_1_fields of_table_def kchain_3_def)
  moreover have "chains (snd (Sync env_rules_sync_fails store_1)) (Name kchain_3) = None"
    by (simp add: Sync_rules_sync_fails_store_1 kchain_3_def)
  ultimately show ?thesis by (simp add: Sync_rules_sync_fails_store_1)
qed

text \<open>
  \<open>chain-2\<close> has a type and is hooked at prerouting through a pointer of its own: base.
  \<open>chain-3\<close> has no type: regular.
\<close>

theorem Sync_infers_base_tag_witness:
  "listChainsResult env_kernel (count_effect CallListChains store_1)
     = Inr [kchain_1, kchain_2, kchain_3]
   \<and> kernel_built kchain_1 \<and> kernel_built kchain_2 \<and> kernel_built kchain_3
   \<and> fst (Sync env_kernel store_1) = None
   \<and> chains store_1 ''chain-2'' = None \<and> chains store_1 ''chain-3'' = None
   \<and> Hooknum kchain_2 = Some (Ref (Heap 3) 0) \<and> Type kchain_2 = ''nat''
   \<and> chains (snd (Sync env_kernel store_1)) ''chain-2'' = Some (synced table_1 True kchain_2)
   \<and> Type kchain_3 = []
   \<and> chains (snd (Sync env_kernel store_1)) ''chain-3'' = Some (synced table_1 False kchain_3)"
proof -
  have l: "listChainsResult env_kernel (count_effect CallListChains store_1)
     = Inr [kchain_1, kchain_2, kchain_3]"
    by (simp add: listing_samples)
  have b: "\<forall>c \<in> set [kchain_1, kchain_2, kchain_3]. kernel_built c"
    by (simp add: kernel_built_samples)
  have q: "\<forall>k. rulesSyncResult env_kernel k = None"
    by (simp add: listing_samples)
  from Sync_infers_base_tag [OF l b] q have ok: "fst (Sync env_kernel store_1) = None"
    by blast
  have rest: "chains store_1 ''chain-2'' = None \<and> chains store_1 ''chain-3'' = None
   \<and> Hooknum kchain_2 = Some (Ref (Heap 3) 0) \<and> Type kchain_2 = ''nat''
   \<and> chains (snd (Sync env_kernel store_1)) ''chain-2'' = Some (synced table_1 True kchain_2)
   \<and> Type kchain_3 = []
   \<and> chains (snd (Sync env_kernel store_1)) ''chain-3'' = Some (synced table_1 False kchain_3)"
    by (simp add: Sync_kernel_store_1 store_1_fields kchain_2_def kchain_3_def)
  show ?thesis using l kernel_built_samples ok rest by blast
qed

text \<open>
  The claim C7 as first stated had every listed chain that is not stored inserted with
  its tag. When the rule store of \<open>chain-1\<close>, the first chain added, fails to sync,
  \<^verbatim>\<open>Sync\<close> returns there: \<open>chain-2\<close>, a listed chain of the table with a type and a
  hook, gets no entry and so no tag.
\<close>

theorem Sync_error_leaves_chain_out_counterexample:
  "listChainsResult env_rules_sync_fails (count_effect CallListChains store_0)
     = Inr [kchain_1, kchain_2, kchain_3]
   \<and> kernel_built kchain_1 \<and> kernel_built kchain_2 \<and> kernel_built kchain_3
   \<and> of_table (table store_0) kchain_2 \<and> chains store_0 (Name kchain_2) = None
   \<and> Type kchain_2 = ''nat'' \<and> Hooknum kchain_2 = Some (Ref (Heap 3) 0)
   \<and> fst (Sync env_rules_sync_fails store_0) = Some EPERM
   \<and> chains (snd (Sync env_rules_sync_fails store_0)) (Name kchain_2) = None"
proof -
  have "of_table (table store_0) kchain_2" "chains store_0 (Name kchain_2) = None"
    "Type kchain_2 = ''nat''" "Hooknum kchain_2 = Some (Ref (Heap 3) 0)"
    by (simp_all add: store_0_def of_table_def kchain_2_def table_1_def)
  moreover have "chains (snd (Sync env_rules_sync_fails store_0)) (Name kchain_2) = None"
    "fst (Sync env_rules_sync_fails store_0) = Some EPERM"
    by (simp_all add: Sync_rules_sync_fails_store_0 kchain_2_def)
  ultimately show ?thesis using kernel_built_samples listing_samples by simp
qed

lemma Exist_samples:
  "Exist env_kernel ''chain-1'' store_1 = (True, store_1)"
  "Exist env_list_fails ''chain-2'' store_1 = (False, did CallListChains store_1)"
  "fst (Exist env_rules_sync_fails ''chain-2'' store_1) = False"
  "fst (Exist env_kernel ''chain-2'' store_1) = True"
  "fst (Exist env_kernel ''chain-7'' store_1) = False"
  by (simp_all add: Exist_def ListChains_def Exist_loop_Cons store_1_eq sync_eval sample_defs)

theorem Exist_hides_failures_witness:
  "chains store_1 ''chain-1'' \<noteq> None \<and> chains store_1 ''chain-2'' = None
   \<and> Exist env_kernel ''chain-1'' store_1 = (True, store_1)
   \<and> Exist env_list_fails ''chain-2'' store_1 = (False, did CallListChains store_1)
   \<and> fst (Sync env_rules_sync_fails (did CallListChains store_1)) \<noteq> None
   \<and> fst (Exist env_rules_sync_fails ''chain-2'' store_1) = False
   \<and> fst (Exist env_kernel ''chain-2'' store_1) = True
   \<and> fst (Exist env_kernel ''chain-7'' store_1) = False"
proof -
  have s: "fst (Sync env_rules_sync_fails (did CallListChains store_1)) \<noteq> None"
    by (simp add: store_1_eq sync_eval sample_defs)
  show ?thesis
    using Exist_hides_failures [of store_1 "''chain-1''" env_kernel]
      Exist_hides_failures [of store_1 "''chain-2''" env_list_fails]
      Exist_hides_failures [of store_1 "''chain-2''" env_rules_sync_fails]
    by (simp add: Exist_samples s store_1_fields)
qed

lemma CreateImm_flush_fails:
  "CreateImm env_flush_fails ''chain-2'' None store_0 =
     (Some EPERM,
      \<lparr>table = table_1,
       chains = [''chain-2'' \<mapsto> synced table_1 False
                   \<lparr>Name = ''chain-2'', Table = table_1, Hooknum = None, Priority = None,
                    Type = [], Policy = None\<rparr>],
       trace = [CallAddChain \<lparr>Name = ''chain-2'', Table = table_1, Hooknum = None,
                               Priority = None, Type = [], Policy = None\<rparr>, CallFlush]\<rparr>)"
  by (simp add: CreateImm_def create_def Flush_def AddChain_def did_def count_effect_def
        newRules_def store_0_def sample_defs)

text \<open>
  The claim C9 as first stated had the new entry gone after a failed \<^verbatim>\<open>CreateImm\<close>.
  After a \<^verbatim>\<open>Flush\<close> that fails the entry is stored.
\<close>

theorem CreateImm_failure_keeps_entry_counterexample:
  "chains store_0 ''chain-2'' = None
   \<and> fst (CreateImm env_flush_fails ''chain-2'' None store_0) = Some EPERM
   \<and> chains (snd (CreateImm env_flush_fails ''chain-2'' None store_0)) ''chain-2''
       = Some \<lparr>baseChain = False,
               chain = Some \<lparr>Name = ''chain-2'', Table = table_1, Hooknum = None,
                              Priority = None, Type = [], Policy = None\<rparr>,
               RulesInterface = Some (RulesOf table_1
                 (Some \<lparr>Name = ''chain-2'', Table = table_1, Hooknum = None,
                         Priority = None, Type = [], Policy = None\<rparr>))\<rparr>"
  by (simp add: CreateImm_flush_fails) (simp add: store_0_def synced_def)

theorem CreateImm_keeps_entry_on_flush_error_witness:
  "fst (create ''chain-2'' None store_0) = None
   \<and> fst (CreateImm env_flush_fails ''chain-2'' None store_0) = Some EPERM
   \<and> chains (snd (CreateImm env_flush_fails ''chain-2'' None store_0)) ''chain-2'' \<noteq> None
   \<and> fst (create ''chain-1'' None store_1) = Some (ErrChainExists ''chain-1'' ''ipv4table'')
   \<and> CreateImm env_flush_fails ''chain-1'' None store_1
       = (Some (ErrChainExists ''chain-1'' ''ipv4table''), store_1)"
proof -
  have c: "fst (create ''chain-2'' None store_0) = None"
    "fst (create ''chain-1'' None store_1) = Some (ErrChainExists ''chain-1'' ''ipv4table'')"
    by (simp_all add: create_def store_0_def AddChain_def store_1_eq isEqualChain_def
          nfChain_1_def table_1_def)
  have f: "fst (CreateImm env_flush_fails ''chain-2'' None store_0) = Some EPERM"
    by (simp add: CreateImm_flush_fails)
  from CreateImm_keeps_entry_on_flush_error [of "''chain-2''" None store_0 env_flush_fails] c(1)
  have k: "chains (snd (CreateImm env_flush_fails ''chain-2'' None store_0)) ''chain-2'' \<noteq> None"
    by blast
  from CreateImm_keeps_entry_on_flush_error [of "''chain-1''" None store_1 env_flush_fails] c(2)
  have u: "CreateImm env_flush_fails ''chain-1'' None store_1
       = (Some (ErrChainExists ''chain-1'' ''ipv4table''), store_1)"
    by blast
  show ?thesis using c f k u by blast
qed




end
